theory Spec2Isabelle
  imports Complex_Main "HOL-Library.AList"
begin

section \<open>Fuzzy logic controller of the fire suppression system\<close>

text \<open>
  A shallow embedding of \<^verbatim>\<open>src/fuzzy_logic_controller.py\<close>. A Python dict is an
  association list in insertion order (the order in which \<^verbatim>\<open>items()\<close> and
  \<^verbatim>\<open>keys()\<close> iterate); assigning to an existing key keeps the key's position, which
  is what \<open>AList.update\<close> does. Exceptions are values of type \<open>error\<close>.

  The arithmetic is embedded twice. The membership functions and the defuzzifier are
  first read in exact real arithmetic: this is the reading of the curves, the rule table
  and the weighted average. \<^verbatim>\<open>calculate_system_response\<close> truncates and compares what
  the machine computed, so it is embedded in double precision: a Python float is the real
  number it denotes, every arithmetic operation is rounded to the nearest double (ties to
  even), a product that leaves the double range is an infinity, and \<^verbatim>\<open>int()\<close> of an
  infinity raises OverflowError. The inputs are meant to be finite doubles.
\<close>

subsection \<open>Data\<close>

datatype error = KeyError string | IndexError | ZeroDivisionError | OverflowError | ValueError

type_synonym memberships = "(string \<times> real) list"

text \<open>Subscripting a dict, \<^verbatim>\<open>d[k]\<close>: a missing key raises KeyError.\<close>

definition getitem :: "memberships \<Rightarrow> string \<Rightarrow> error + real" where
  "getitem d k = (case map_of d k of None \<Rightarrow> Inl (KeyError k) | Some v \<Rightarrow> Inr v)"


text \<open>\<^verbatim>\<open>str.capitalize()\<close> on ASCII text: first character upper case, the rest lower case.\<close>

definition upper_char :: "char \<Rightarrow> char" where
  "upper_char c = (let n = (of_char c :: nat) in if 97 \<le> n \<and> n \<le> 122 then char_of (n - 32) else c)"

definition lower_char :: "char \<Rightarrow> char" where
  "lower_char c = (let n = (of_char c :: nat) in if 65 \<le> n \<and> n \<le> 90 then char_of (n + 32) else c)"

fun capitalize :: "string \<Rightarrow> string" where
  "capitalize [] = []"
| "capitalize (c # cs) = upper_char c # map lower_char cs"

text \<open>One entry of the rule list of \<^verbatim>\<open>get_fuzzy_output\<close>.\<close>

record rule =
  rule_heat :: string
  rule_duration :: string
  rule_output :: real

text \<open>The dict returned by \<^verbatim>\<open>calculate_system_response\<close>.\<close>

record response =
  heat_memberships :: memberships
  duration_memberships :: memberships
  water_output :: real
  dominant_heat :: string
  dominant_duration :: string
  should_trigger :: bool
  spray_duration :: int
  system_status :: string
  status_color :: string
  water_level :: string
  water_pressure :: int

subsection \<open>Membership functions, in exact arithmetic\<close>

definition get_heat_membership :: "real \<Rightarrow> memberships" where
  "get_heat_membership temp =
    (let m = [(''low'', 0), (''medium'', 0), (''high'', 0), (''critical'', 0)];
         m = (if temp \<le> 120
              then AList.update ''low'' (max 0 ((120 - temp) / 50)) m
              else m);
         m = (if 100 \<le> temp \<and> temp \<le> 180
              then (if temp \<le> 140
                    then AList.update ''medium'' ((temp - 100) / 40) m
                    else AList.update ''medium'' ((180 - temp) / 40) m)
              else m);
         m = (if 150 \<le> temp \<and> temp \<le> 220
              then (if temp \<le> 185
                    then AList.update ''high'' ((temp - 150) / 35) m
                    else AList.update ''high'' ((220 - temp) / 35) m)
              else m);
         m = (if temp \<ge> 200
              then AList.update ''critical'' (min 1 ((temp - 200) / 100)) m
              else m)
     in m)"

definition get_duration_membership :: "real \<Rightarrow> memberships" where
  "get_duration_membership dur =
    (let m = [(''short'', 0), (''medium'', 0), (''long'', 0)];
         m = (if dur \<le> 15
              then AList.update ''short'' (max 0 ((15 - dur) / 15)) m
              else m);
         m = (if 10 \<le> dur \<and> dur \<le> 35
              then (if dur \<le> 22.5
                    then AList.update ''medium'' ((dur - 10) / 12.5) m
                    else AList.update ''medium'' ((35 - dur) / 12.5) m)
              else m);
         m = (if dur \<ge> 25
              then AList.update ''long'' (min 1 ((dur - 25) / 35)) m
              else m)
     in m)"

subsection \<open>Rules and defuzzification, in exact arithmetic\<close>




subsection \<open>Dominant fuzzy set\<close>

text \<open>The loop over \<^verbatim>\<open>memberships.items()\<close>, on the pair (max_value, dominant).\<close>

fun dominant_loop :: "memberships \<Rightarrow> real \<times> string \<Rightarrow> real \<times> string" where
  "dominant_loop [] acc = acc"
| "dominant_loop ((key, val) # rest) (max_value, dominant) =
    (if val > max_value
     then dominant_loop rest (val, key)
     else dominant_loop rest (max_value, dominant))"

text \<open>
  The empty string is falsy, so \<^verbatim>\<open>dominant if dominant else list(memberships.keys())[0]\<close>
  takes the first key when no value exceeded 0; on an empty dict the index raises.
\<close>

definition get_dominant_membership :: "memberships \<Rightarrow> error + string" where
  "get_dominant_membership m =
    (case dominant_loop m (0, []) of
       (max_value, dominant) \<Rightarrow>
         (if dominant \<noteq> [] then Inr dominant
          else (case map fst m of [] \<Rightarrow> Inl IndexError | k # ks \<Rightarrow> Inr k)))"

subsection \<open>Double-precision arithmetic\<close>

text \<open>
  The binade of a real: the exponent \<open>e\<close> with \<open>2 powi e \<le> \<bar>x\<bar> < 2 powi (e + 1)\<close>,
  kept within the exponent range -1022 .. 1023 of a double (below it the subnormal
  numbers share the exponent -1022). It is found by counting up from -1022.
\<close>

fun expo_up :: "nat \<Rightarrow> int \<Rightarrow> real \<Rightarrow> int" where
  "expo_up 0 e a = e"
| "expo_up (Suc n) e a = (if a < 2 powi (e + 1) then e else expo_up n (e + 1) a)"

definition expo :: "real \<Rightarrow> int" where
  "expo x = expo_up 2045 (- 1022) \<bar>x\<bar>"

text \<open>The distance between neighbouring doubles near \<open>x\<close>: 52 fraction bits.\<close>

definition ulp :: "real \<Rightarrow> real" where
  "ulp x = 2 powi (expo x - 52)"

text \<open>Rounding to the nearest integer, a tie going to the even one.\<close>

definition rne :: "real \<Rightarrow> int" where
  "rne y =
    (let f = \<lfloor>y\<rfloor>; r = y - of_int f
     in if r < 1 / 2 then f
        else if 1 / 2 < r then f + 1
        else if even f then f else f + 1)"

text \<open>
  The double nearest to \<open>x\<close>. A result of magnitude \<open>2 ^ 1024\<close> or more stands for an
  overflow; \<open>finite_or_inf\<close> turns it into an infinity.
\<close>

definition fl :: "real \<Rightarrow> real" where
  "fl x = of_int (rne (x / ulp x)) * ulp x"

datatype pyfloat = Finite real | PosInf | NegInf | NaN

definition finite_or_inf :: "real \<Rightarrow> pyfloat" where
  "finite_or_inf r =
    (if 2 ^ 1024 \<le> r then PosInf else if r \<le> - (2 ^ 1024) then NegInf else Finite r)"

text \<open>Multiplication of floats, with the infinities and the invalid product of IEEE 754.\<close>

fun fmul :: "pyfloat \<Rightarrow> pyfloat \<Rightarrow> pyfloat" where
  "fmul (Finite a) (Finite b) = finite_or_inf (fl (a * b))"
| "fmul NaN y = NaN"
| "fmul x NaN = NaN"
| "fmul (Finite a) PosInf = (if 0 < a then PosInf else if a < 0 then NegInf else NaN)"
| "fmul (Finite a) NegInf = (if 0 < a then NegInf else if a < 0 then PosInf else NaN)"
| "fmul PosInf (Finite b) = (if 0 < b then PosInf else if b < 0 then NegInf else NaN)"
| "fmul NegInf (Finite b) = (if 0 < b then NegInf else if b < 0 then PosInf else NaN)"
| "fmul PosInf PosInf = PosInf"
| "fmul PosInf NegInf = NegInf"
| "fmul NegInf PosInf = NegInf"
| "fmul NegInf NegInf = PosInf"

text \<open>
  \<^verbatim>\<open>int(x)\<close> of a float truncates towards zero; on an infinity it raises OverflowError
  and on a NaN ValueError.
\<close>

definition truncate :: "real \<Rightarrow> int" where
  "truncate x = (if 0 \<le> x then \<lfloor>x\<rfloor> else \<lceil>x\<rceil>)"

fun py_int :: "pyfloat \<Rightarrow> error + int" where
  "py_int (Finite x) = Inr (truncate x)"
| "py_int PosInf = Inl OverflowError"
| "py_int NegInf = Inl OverflowError"
| "py_int NaN = Inl ValueError"

subsection \<open>Membership functions, in double precision\<close>

text \<open>
  The same two functions with every subtraction and division rounded. On finite doubles
  none of these operations can leave the double range: the constants are small and the
  divisors exceed 1.
\<close>

definition get_heat_membership_double :: "real \<Rightarrow> memberships" where
  "get_heat_membership_double temp =
    (let m = [(''low'', 0), (''medium'', 0), (''high'', 0), (''critical'', 0)];
         m = (if temp \<le> 120
              then AList.update ''low'' (max 0 (fl (fl (120 - temp) / 50))) m
              else m);
         m = (if 100 \<le> temp \<and> temp \<le> 180
              then (if temp \<le> 140
                    then AList.update ''medium'' (fl (fl (temp - 100) / 40)) m
                    else AList.update ''medium'' (fl (fl (180 - temp) / 40)) m)
              else m);
         m = (if 150 \<le> temp \<and> temp \<le> 220
              then (if temp \<le> 185
                    then AList.update ''high'' (fl (fl (temp - 150) / 35)) m
                    else AList.update ''high'' (fl (fl (220 - temp) / 35)) m)
              else m);
         m = (if temp \<ge> 200
              then AList.update ''critical'' (min 1 (fl (fl (temp - 200) / 100))) m
              else m)
     in m)"

definition get_duration_membership_double :: "real \<Rightarrow> memberships" where
  "get_duration_membership_double dur =
    (let m = [(''short'', 0), (''medium'', 0), (''long'', 0)];
         m = (if dur \<le> 15
              then AList.update ''short'' (max 0 (fl (fl (15 - dur) / 15))) m
              else m);
         m = (if 10 \<le> dur \<and> dur \<le> 35
              then (if dur \<le> 22.5
                    then AList.update ''medium'' (fl (fl (dur - 10) / 12.5)) m
                    else AList.update ''medium'' (fl (fl (35 - dur) / 12.5)) m)
              else m);
         m = (if dur \<ge> 25
              then AList.update ''long'' (min 1 (fl (fl (dur - 25) / 35))) m
              else m)
     in m)"

subsection \<open>Rules and defuzzification, in double precision\<close>

text \<open>
  A decimal literal denotes the double nearest to it: \<^verbatim>\<open>0.2\<close> is \<open>fl 0.2\<close>. The literals
  0, 1.0, 0.5, 12.5 and 22.5 are doubles themselves.
\<close>

definition rules_double :: "rule list" where
  "rules_double =
    [\<lparr>rule_heat = ''low'', rule_duration = ''short'', rule_output = 0\<rparr>,
     \<lparr>rule_heat = ''low'', rule_duration = ''medium'', rule_output = 0\<rparr>,
     \<lparr>rule_heat = ''low'', rule_duration = ''long'', rule_output = 0\<rparr>,
     \<lparr>rule_heat = ''medium'', rule_duration = ''short'', rule_output = fl 0.2\<rparr>,
     \<lparr>rule_heat = ''medium'', rule_duration = ''medium'', rule_output = fl 0.4\<rparr>,
     \<lparr>rule_heat = ''medium'', rule_duration = ''long'', rule_output = fl 0.6\<rparr>,
     \<lparr>rule_heat = ''high'', rule_duration = ''short'', rule_output = fl 0.6\<rparr>,
     \<lparr>rule_heat = ''high'', rule_duration = ''medium'', rule_output = fl 0.8\<rparr>,
     \<lparr>rule_heat = ''high'', rule_duration = ''long'', rule_output = 1.0\<rparr>,
     \<lparr>rule_heat = ''critical'', rule_duration = ''short'', rule_output = fl 0.8\<rparr>,
     \<lparr>rule_heat = ''critical'', rule_duration = ''medium'', rule_output = 1.0\<rparr>,
     \<lparr>rule_heat = ''critical'', rule_duration = ''long'', rule_output = 1.0\<rparr>]"

fun rule_loop_double :: "memberships \<Rightarrow> memberships \<Rightarrow> rule list \<Rightarrow> real \<times> real \<Rightarrow> error + real \<times> real" where
  "rule_loop_double hm dm [] acc = Inr acc"
| "rule_loop_double hm dm (r # rs) (numerator, denominator) =
    (case getitem hm (rule_heat r) of
       Inl e \<Rightarrow> Inl e
     | Inr hv \<Rightarrow>
        (case getitem dm (rule_duration r) of
           Inl e \<Rightarrow> Inl e
         | Inr dv \<Rightarrow>
            (let strength = min hv dv
             in rule_loop_double hm dm rs
                  (fl (numerator + fl (strength * rule_output r)), fl (denominator + strength)))))"

definition truediv_double :: "real \<Rightarrow> real \<Rightarrow> error + real" where
  "truediv_double a b = (if b = 0 then Inl ZeroDivisionError else Inr (fl (a / b)))"

definition get_fuzzy_output_double :: "memberships \<Rightarrow> memberships \<Rightarrow> error + real" where
  "get_fuzzy_output_double hm dm =
    (case rule_loop_double hm dm rules_double (0, 0) of
       Inl e \<Rightarrow> Inl e
     | Inr (numerator, denominator) \<Rightarrow>
        (if denominator > 0 then truediv_double numerator denominator else Inr 0))"

subsection \<open>System response\<close>

text \<open>
  The product \<^verbatim>\<open>base_duration * heat_multiplier * output_multiplier\<close> is the one place
  where a finite input overflows. The dict display evaluates \<^verbatim>\<open>int(spray_duration)\<close>
  before \<^verbatim>\<open>int(water_output * 100)\<close>, so the first of the two that raises decides.
\<close>

definition calculate_system_response :: "real \<Rightarrow> real \<Rightarrow> error + response" where
  "calculate_system_response heat_level dur =
    (let hm = get_heat_membership_double heat_level;
         dm = get_duration_membership_double dur
     in case get_fuzzy_output_double hm dm of
          Inl e \<Rightarrow> Inl e
        | Inr wo \<Rightarrow>
       (case get_dominant_membership hm of
          Inl e \<Rightarrow> Inl e
        | Inr dh \<Rightarrow>
       (case get_dominant_membership dm of
          Inl e \<Rightarrow> Inl e
        | Inr dd \<Rightarrow>
       (let trigger = (heat_level \<ge> 155 \<and> dur > 0);
            base_duration = 5000;
            heat_multiplier = max 1 (fl (fl (heat_level - 155) / 50));
            output_multiplier = max 0.5 wo;
            spray = fmul (fmul (Finite base_duration) (Finite heat_multiplier)) (Finite output_multiplier);
            (status, color) =
              (if trigger then (''ACTIVE'', ''#ff4444'')
               else if heat_level \<ge> 140 then (''WARNING'', ''#ffa726'')
               else (''STANDBY'', ''#4ecdc4''));
            level =
              (if wo > 0
               then (if wo < fl 0.3 then ''Low''
                     else if wo < fl 0.7 then ''Medium''
                     else ''High'')
               else ''None'')
        in case py_int spray of
             Inl e \<Rightarrow> Inl e
           | Inr spray_ms \<Rightarrow>
          (case py_int (fmul (Finite wo) (Finite 100)) of
             Inl e \<Rightarrow> Inl e
           | Inr pressure \<Rightarrow>
               Inr \<lparr>heat_memberships = hm,
                    duration_memberships = dm,
                    water_output = wo,
                    dominant_heat = capitalize dh,
                    dominant_duration = capitalize dd,
                    should_trigger = trigger,
                    spray_duration = spray_ms,
                    system_status = status,
                    status_color = color,
                    water_level = level,
                    water_pressure = pressure\<rparr>)))))"

section \<open>Notions used in the statements\<close>

text \<open>Every value of a membership dict lies in the unit interval; no value is negative.\<close>

definition unit_values :: "memberships \<Rightarrow> bool" where
  "unit_values m = list_all (\<lambda>kv. 0 \<le> snd kv \<and> snd kv \<le> 1) m"

definition nonneg_values :: "memberships \<Rightarrow> bool" where
  "nonneg_values m = list_all (\<lambda>kv. 0 \<le> snd kv) m"

text \<open>The value stored under a key, read as a total function of the key.\<close>

definition value_of :: "memberships \<Rightarrow> string \<Rightarrow> real" where
  "value_of m k = (case map_of m k of None \<Rightarrow> 0 | Some v \<Rightarrow> v)"

text \<open>
  The defuzzifier as the specification words it: the category names in their declared
  order, the rule table as a function of the two categories, the firing strength as the
  minimum of the two degrees, and the weighted average with its fallback 0.
\<close>

definition heat_categories :: "string list" where
  "heat_categories = [''low'', ''medium'', ''high'', ''critical'']"

definition duration_categories :: "string list" where
  "duration_categories = [''short'', ''medium'', ''long'']"







text \<open>
  Key \<open>k\<close> holds the greatest value of the dict and is the first key, in iteration
  order, that holds it: every entry before it is strictly smaller, none after it is larger.
\<close>

definition first_maximum :: "memberships \<Rightarrow> string \<Rightarrow> bool" where
  "first_maximum m k =
     (\<exists>pre v post. m = pre @ (k, v) # post
        \<and> (\<forall>p\<in>set pre. snd p < v) \<and> (\<forall>p\<in>set post. snd p \<le> v))"

text \<open>A membership degree as the machine holds it: a double that is not negative.\<close>

definition nonneg_double :: "real \<Rightarrow> bool" where
  "nonneg_double v = (0 \<le> v \<and> fl v = v)"

section \<open>Closed forms of the membership functions\<close>

lemma get_heat_membership_eq:
  "get_heat_membership t =
    [(''low'', if t \<le> 120 then max 0 ((120 - t) / 50) else 0),
     (''medium'', if 100 \<le> t \<and> t \<le> 180 then (if t \<le> 140 then (t - 100) / 40 else (180 - t) / 40) else 0),
     (''high'', if 150 \<le> t \<and> t \<le> 220 then (if t \<le> 185 then (t - 150) / 35 else (220 - t) / 35) else 0),
     (''critical'', if 200 \<le> t then min 1 ((t - 200) / 100) else 0)]"
  by (simp add: get_heat_membership_def Let_def)

lemma get_duration_membership_eq:
  "get_duration_membership d =
    [(''short'', if d \<le> 15 then max 0 ((15 - d) / 15) else 0),
     (''medium'', if 10 \<le> d \<and> d \<le> 35 then (if d \<le> 22.5 then (d - 10) / 12.5 else (35 - d) / 12.5) else 0),
     (''long'', if 25 \<le> d then min 1 ((d - 25) / 35) else 0)]"
  by (simp add: get_duration_membership_def Let_def)

section \<open>The rule loop\<close>











section \<open>Some category always fires\<close>







section \<open>The dominant key\<close>

lemma dominant_loop_spec:
  "dominant_loop m (mv, dm0) = (mv', dom') \<Longrightarrow>
     ((mv', dom') = (mv, dm0) \<and> (\<forall>p\<in>set m. snd p \<le> mv))
     \<or> (mv < mv' \<and> (\<exists>pre post. m = pre @ (dom', mv') # post
            \<and> (\<forall>p\<in>set pre. snd p < mv') \<and> (\<forall>p\<in>set post. snd p \<le> mv')))"
proof (induction m arbitrary: mv dm0)
  case Nil
  then show ?case by simp
next
  case (Cons kv rest)
  obtain k v where kv: "kv = (k, v)" by (cases kv)
  show ?case
  proof (cases "v > mv")
    case True
    then have run: "dominant_loop rest (v, k) = (mv', dom')"
      using Cons.prems kv by simp
    from Cons.IH[OF run] show ?thesis
    proof
      assume u: "(mv', dom') = (v, k) \<and> (\<forall>p\<in>set rest. snd p \<le> v)"
      then have "kv # rest = [] @ (dom', mv') # rest" using kv by simp
      moreover have "\<forall>p\<in>set rest. snd p \<le> mv'" using u by simp
      moreover have "mv < mv'" using u True by simp
      ultimately show ?thesis by (metis empty_iff list.set(1))
    next
      assume c: "v < mv' \<and> (\<exists>pre post. rest = pre @ (dom', mv') # post
            \<and> (\<forall>p\<in>set pre. snd p < mv') \<and> (\<forall>p\<in>set post. snd p \<le> mv'))"
      then obtain pre post where pp: "rest = pre @ (dom', mv') # post"
          "\<forall>p\<in>set pre. snd p < mv'" "\<forall>p\<in>set post. snd p \<le> mv'" by blast
      have 1: "kv # rest = (kv # pre) @ (dom', mv') # post" using pp(1) by simp
      have 2: "\<forall>p\<in>set (kv # pre). snd p < mv'" using pp(2) c kv by simp
      have 3: "mv < mv'" using c True by simp
      show ?thesis using 1 2 3 pp(3) by blast
    qed
  next
    case False
    then have run: "dominant_loop rest (mv, dm0) = (mv', dom')"
      using Cons.prems kv by simp
    from Cons.IH[OF run] show ?thesis
    proof
      assume u: "(mv', dom') = (mv, dm0) \<and> (\<forall>p\<in>set rest. snd p \<le> mv)"
      then show ?thesis using False kv by simp
    next
      assume c: "mv < mv' \<and> (\<exists>pre post. rest = pre @ (dom', mv') # post
            \<and> (\<forall>p\<in>set pre. snd p < mv') \<and> (\<forall>p\<in>set post. snd p \<le> mv'))"
      then obtain pre post where pp: "rest = pre @ (dom', mv') # post"
          "\<forall>p\<in>set pre. snd p < mv'" "\<forall>p\<in>set post. snd p \<le> mv'" by blast
      have 1: "kv # rest = (kv # pre) @ (dom', mv') # post" using pp(1) by simp
      have 2: "\<forall>p\<in>set (kv # pre). snd p < mv'" using pp(2) c kv False by simp
      show ?thesis using 1 2 c pp(3) by blast
    qed
  qed
qed

lemma get_dominant_first_maximum:
  assumes ne: "m \<noteq> []"
      and nn: "\<forall>p\<in>set m. fst p \<noteq> [] \<and> 0 \<le> snd p"
  shows "\<exists>k. get_dominant_membership m = Inr k \<and> first_maximum m k"
proof -
  obtain mv' dom' where run: "dominant_loop m (0, []) = (mv', dom')"
    by (cases "dominant_loop m (0, [])")
  from dominant_loop_spec[OF run] show ?thesis
  proof
    assume u: "(mv', dom') = (0, []) \<and> (\<forall>p\<in>set m. snd p \<le> 0)"
    obtain k v rest where m: "m = (k, v) # rest" using ne by (cases m) auto
    have zero: "\<forall>p\<in>set m. snd p = 0" using u nn by (metis antisym)
    have res: "get_dominant_membership m = Inr k"
      using run u m by (simp add: get_dominant_membership_def)
    have "m = [] @ (k, v) # rest \<and> (\<forall>p\<in>set []. snd p < v) \<and> (\<forall>p\<in>set rest. snd p \<le> v)"
      using m zero by simp
    then have "first_maximum m k" unfolding first_maximum_def by blast
    then show ?thesis using res by blast
  next
    assume c: "0 < mv' \<and> (\<exists>pre post. m = pre @ (dom', mv') # post
            \<and> (\<forall>p\<in>set pre. snd p < mv') \<and> (\<forall>p\<in>set post. snd p \<le> mv'))"
    then have fm: "first_maximum m dom'" unfolding first_maximum_def by blast
    from c have "(dom', mv') \<in> set m" by auto
    then have "dom' \<noteq> []" using nn by fastforce
    then have "get_dominant_membership m = Inr dom'"
      using run by (simp add: get_dominant_membership_def)
    then show ?thesis using fm by blast
  qed
qed

section \<open>Double-precision arithmetic: the binade and the rounding\<close>

lemma expo_up_spec:
  "expo_up n e a = e' \<Longrightarrow>
     e \<le> e' \<and> e' \<le> e + int n
     \<and> (e' < e + int n \<longrightarrow> a < 2 powi (e' + 1))
     \<and> (e < e' \<longrightarrow> 2 powi e' \<le> a)"
proof (induction n arbitrary: e)
  case 0
  then show ?case by simp
next
  case (Suc n)
  show ?case
  proof (cases "a < 2 powi (e + 1)")
    case True
    then have "e' = e" using Suc.prems by simp
    then show ?thesis using True by simp
  next
    case False
    then have run: "expo_up n (e + 1) a = e'" using Suc.prems by simp
    note ih = Suc.IH[OF run]
    have ge: "2 powi e' \<le> a" if "e < e'"
    proof (cases "e + 1 < e'")
      case True
      then show ?thesis using ih by simp
    next
      case False
      then have "e' = e + 1" using ih by simp
      then show ?thesis using \<open>\<not> a < 2 powi (e + 1)\<close> by simp
    qed
    show ?thesis using ih ge by auto
  qed
qed

lemma expo_range: "- 1022 \<le> expo x" "expo x \<le> 1023"
  using expo_up_spec[of 2045 "- 1022" "\<bar>x\<bar>" "expo x"] by (simp_all add: expo_def)

lemma expo_upper: "expo x < 1023 \<Longrightarrow> \<bar>x\<bar> < 2 powi (expo x + 1)"
  using expo_up_spec[of 2045 "- 1022" "\<bar>x\<bar>" "expo x"] by (simp add: expo_def)

lemma expo_lower: "- 1022 < expo x \<Longrightarrow> 2 powi (expo x) \<le> \<bar>x\<bar>"
  using expo_up_spec[of 2045 "- 1022" "\<bar>x\<bar>" "expo x"] by (simp add: expo_def)

lemma pow2_mono: "a \<le> b \<Longrightarrow> (2::real) powi a \<le> 2 powi b"
  by (rule power_int_increasing) simp_all

lemma expo_eqI:
  assumes r: "- 1022 \<le> e" "e \<le> 1023"
      and lo: "e = - 1022 \<or> 2 powi e \<le> \<bar>x\<bar>"
      and hi: "e = 1023 \<or> \<bar>x\<bar> < 2 powi (e + 1)"
  shows "expo x = e"
proof (rule ccontr)
  assume ne: "expo x \<noteq> e"
  show False
  proof (cases "expo x < e")
    case True
    then have "expo x < 1023" using r by simp
    then have a: "\<bar>x\<bar> < 2 powi (expo x + 1)" by (rule expo_upper)
    have "2 powi (expo x + 1) \<le> (2::real) powi e" using True by (intro pow2_mono) simp
    moreover have "2 powi e \<le> \<bar>x\<bar>" using lo True expo_range(1)[of x] by auto
    ultimately show False using a by simp
  next
    case False
    then have lt: "e < expo x" using ne by simp
    then have "- 1022 < expo x" using r by simp
    then have a: "2 powi (expo x) \<le> \<bar>x\<bar>" by (rule expo_lower)
    have "(2::real) powi (e + 1) \<le> 2 powi (expo x)" using lt by (intro pow2_mono) simp
    moreover have "\<bar>x\<bar> < 2 powi (e + 1)" using hi lt expo_range(2)[of x] by auto
    ultimately show False using a by simp
  qed
qed

lemma expo_mono:
  assumes "\<bar>x\<bar> \<le> \<bar>y\<bar>"
  shows "expo x \<le> expo y"
proof (rule ccontr)
  assume "\<not> expo x \<le> expo y"
  then have lt: "expo y < expo x" by simp
  have "expo y < 1023" using lt expo_range(2)[of x] by simp
  then have a: "\<bar>y\<bar> < 2 powi (expo y + 1)" by (rule expo_upper)
  have "- 1022 < expo x" using lt expo_range(1)[of y] by simp
  then have b: "2 powi (expo x) \<le> \<bar>x\<bar>" by (rule expo_lower)
  have "(2::real) powi (expo y + 1) \<le> 2 powi (expo x)" using lt by (intro pow2_mono) simp
  then show False using a b assms by simp
qed

lemma ulp_pos: "0 < ulp x"
  by (simp add: ulp_def)

lemma rne_bounds: "of_int (rne y) \<le> y + 1 / 2" "y - 1 / 2 \<le> of_int (rne y)"
  unfolding rne_def Let_def by (auto; linarith)+

lemma rne_of_int: "rne (of_int n) = n"
  by (simp add: rne_def)

lemma rne_mono:
  assumes "y \<le> z"
  shows "rne y \<le> rne z"
proof (cases "\<lfloor>y\<rfloor> < \<lfloor>z\<rfloor>")
  case True
  have "rne y \<le> \<lfloor>y\<rfloor> + 1" unfolding rne_def Let_def by auto
  moreover have "\<lfloor>z\<rfloor> \<le> rne z" unfolding rne_def Let_def by auto
  ultimately show ?thesis using True by simp
next
  case False
  then have eq: "\<lfloor>y\<rfloor> = \<lfloor>z\<rfloor>" using floor_mono[OF assms] by simp
  show ?thesis using assms unfolding rne_def Let_def eq by auto
qed

lemma rne_ge: "of_int n \<le> y \<Longrightarrow> n \<le> rne y"
  using rne_mono[of "of_int n" y] by (simp add: rne_of_int)

lemma rne_le: "y \<le> of_int n \<Longrightarrow> rne y \<le> n"
  using rne_mono[of y "of_int n"] by (simp add: rne_of_int)

lemma fl_nonneg: "0 \<le> x \<Longrightarrow> 0 \<le> fl x"
proof -
  assume "0 \<le> x"
  then have "of_int 0 \<le> x / ulp x" using ulp_pos[of x] by simp
  then have "0 \<le> rne (x / ulp x)" by (rule rne_ge)
  then show ?thesis using ulp_pos[of x] by (simp add: fl_def)
qed

lemma fl_nonpos: "x \<le> 0 \<Longrightarrow> fl x \<le> 0"
proof -
  assume "x \<le> 0"
  then have "x / ulp x \<le> of_int 0" using ulp_pos[of x] by (simp add: divide_nonpos_pos)
  then have "rne (x / ulp x) \<le> 0" by (rule rne_le)
  then show ?thesis using ulp_pos[of x] by (simp add: fl_def mult_nonpos_nonneg)
qed

lemma fl_zero: "fl 0 = 0"
  using fl_nonneg[of 0] fl_nonpos[of 0] by simp

lemma pow2_split: "(2::real) powi (e + 1) = 2 ^ 53 * 2 powi (e - 52)"
proof -
  have "e + 1 = 53 + (e - 52)" by simp
  then have "(2::real) powi (e + 1) = 2 powi (53 + (e - 52))" by (rule arg_cong)
  also have "\<dots> = 2 powi 53 * 2 powi (e - 52)" by (subst power_int_add) simp_all
  finally show ?thesis by simp
qed

lemma pow2_split': "(2::real) powi e = 2 ^ 52 * 2 powi (e - 52)"
proof -
  have "e = 52 + (e - 52)" by simp
  then have "(2::real) powi e = 2 powi (52 + (e - 52))" by (rule arg_cong)
  also have "\<dots> = 2 powi 52 * 2 powi (e - 52)" by (subst power_int_add) simp_all
  finally show ?thesis by simp
qed

text \<open>Evaluation of fl at a point whose binade is known.\<close>

lemma fl_eqI:
  assumes "- 1022 \<le> e" "e \<le> 1023"
      and "e = - 1022 \<or> 2 powi e \<le> \<bar>x\<bar>"
      and "e = 1023 \<or> \<bar>x\<bar> < 2 powi (e + 1)"
      and "rne (x / 2 powi (e - 52)) = n"
  shows "fl x = of_int n * 2 powi (e - 52)"
proof -
  have "expo x = e" using assms(1-4) by (rule expo_eqI)
  then show ?thesis using assms(5) by (simp add: fl_def ulp_def)
qed

text \<open>Below the next power of two the rounded value stays at or below it; from a power of
  two on it stays at or above it.\<close>

lemma fl_le_next:
  assumes "0 \<le> x" "expo x < 1023"
  shows "fl x \<le> 2 powi (expo x + 1)"
proof -
  have "x < 2 powi (expo x + 1)" using expo_upper[OF assms(2)] assms(1) by simp
  then have "x < of_int (2 ^ 53) * ulp x" by (simp add: ulp_def pow2_split[of "expo x"])
  then have "x / ulp x \<le> of_int (2 ^ 53)" using ulp_pos[of x] by (simp add: pos_divide_le_eq)
  then have "rne (x / ulp x) \<le> 2 ^ 53" by (rule rne_le)
  then have "of_int (rne (x / ulp x)) * ulp x \<le> of_int (2 ^ 53) * ulp x"
    using ulp_pos[of x] by (intro mult_right_mono) simp_all
  then show ?thesis by (simp add: fl_def ulp_def pow2_split[of "expo x"])
qed

lemma fl_ge_prev:
  assumes "0 \<le> x" "- 1022 < expo x"
  shows "2 powi (expo x) \<le> fl x"
proof -
  have "2 powi (expo x) \<le> x" using expo_lower[OF assms(2)] assms(1) by simp
  then have "of_int (2 ^ 52) * ulp x \<le> x" by (simp add: ulp_def pow2_split'[of "expo x"])
  then have "of_int (2 ^ 52) \<le> x / ulp x" using ulp_pos[of x] by (simp add: pos_le_divide_eq)
  then have "2 ^ 52 \<le> rne (x / ulp x)" by (rule rne_ge)
  then have "of_int (2 ^ 52) * ulp x \<le> of_int (rne (x / ulp x)) * ulp x"
    using ulp_pos[of x] by (intro mult_right_mono) simp_all
  then show ?thesis by (simp add: fl_def ulp_def pow2_split'[of "expo x"])
qed

lemma fl_mono:
  assumes "0 \<le> x" "x \<le> y"
  shows "fl x \<le> fl y"
proof -
  have le: "expo x \<le> expo y" using assms by (intro expo_mono) simp
  show ?thesis
  proof (cases "expo x = expo y")
    case True
    then have u: "ulp x = ulp y" by (simp add: ulp_def)
    have "x / ulp y \<le> y / ulp y" using assms(2) ulp_pos[of y] by (simp add: divide_right_mono)
    then have "rne (x / ulp y) \<le> rne (y / ulp y)" by (rule rne_mono)
    then have "of_int (rne (x / ulp y)) * ulp y \<le> of_int (rne (y / ulp y)) * ulp y"
      using ulp_pos[of y] by (intro mult_right_mono) simp_all
    then show ?thesis by (simp add: fl_def u)
  next
    case False
    then have lt: "expo x < expo y" using le by simp
    have "expo x < 1023" using lt expo_range(2)[of y] by simp
    then have a: "fl x \<le> 2 powi (expo x + 1)" using assms(1) by (intro fl_le_next)
    have "- 1022 < expo y" using lt expo_range(1)[of x] by simp
    then have b: "2 powi (expo y) \<le> fl y" using assms by (intro fl_ge_prev) simp_all
    have "(2::real) powi (expo x + 1) \<le> 2 powi (expo y)" using lt by (intro pow2_mono) simp
    then show ?thesis using a b by simp
  qed
qed

text \<open>A value \<open>n * 2 powi (e - 52)\<close> with \<open>n\<close> in the range of a significand is a double.\<close>

lemma fl_representable:
  assumes r: "- 1022 \<le> e" "e \<le> 1023"
      and n: "0 \<le> n" "n < 2 ^ 53" "e = - 1022 \<or> 2 ^ 52 \<le> n"
  shows "fl (of_int n * 2 powi (e - 52)) = of_int n * 2 powi (e - 52)"
proof -
  let ?u = "(2::real) powi (e - 52)"
  have upos: "0 < ?u" by simp
  have abs: "\<bar>of_int n * ?u\<bar> = of_int n * ?u" using n(1) by simp
  have lo: "e = - 1022 \<or> 2 powi e \<le> \<bar>of_int n * ?u\<bar>"
  proof (cases "e = - 1022")
    case True
    then show ?thesis by simp
  next
    case False
    then have "2 ^ 52 \<le> n" using n(3) by simp
    then have "(2::real) ^ 52 \<le> of_int n" by (metis of_int_le_iff of_int_numeral of_int_power)
    then have "2 ^ 52 * ?u \<le> of_int n * ?u" by (intro mult_right_mono) simp_all
    then show ?thesis unfolding abs by (simp add: pow2_split'[of e])
  qed
  have "of_int n < (2::real) ^ 53" using n(2) by (metis of_int_less_iff of_int_numeral of_int_power)
  then have "of_int n * ?u < 2 ^ 53 * ?u" by (intro mult_strict_right_mono) simp_all
  then have hi: "e = 1023 \<or> \<bar>of_int n * ?u\<bar> < 2 powi (e + 1)"
    unfolding abs by (simp add: pow2_split[of e])
  have rn: "rne (of_int n * ?u / ?u) = n" by (simp add: rne_of_int)
  show ?thesis by (rule fl_eqI[OF r lo hi rn])
qed

lemma fl_idem:
  assumes "0 \<le> x"
  shows "fl (fl x) = fl x"
proof -
  let ?e = "expo x"
  let ?n = "rne (x / ulp x)"
  have flx: "fl x = of_int ?n * 2 powi (?e - 52)" by (simp add: fl_def ulp_def)
  have n0: "0 \<le> ?n" using assms ulp_pos[of x] by (intro rne_ge) simp
  have nlo: "?e = - 1022 \<or> 2 ^ 52 \<le> ?n"
  proof (cases "?e = - 1022")
    case True
    then show ?thesis by simp
  next
    case False
    then have "- 1022 < ?e" using expo_range(1)[of x] by simp
    then have "2 powi ?e \<le> x" using expo_lower[of x] assms by simp
    then have "of_int (2 ^ 52) * ulp x \<le> x" by (simp add: ulp_def pow2_split'[of ?e])
    then have "of_int (2 ^ 52) \<le> x / ulp x" using ulp_pos[of x] by (simp add: pos_le_divide_eq)
    then have "2 ^ 52 \<le> ?n" by (rule rne_ge)
    then show ?thesis by simp
  qed
  show ?thesis
  proof (cases "?n < 2 ^ 53")
    case True
    show ?thesis unfolding flx
      using expo_range[of x] n0 True nlo by (rule fl_representable)
  next
    case False
    then have big: "2 ^ 53 \<le> ?n" by simp
    then have bigr: "(2::real) ^ 53 \<le> of_int ?n" by (metis of_int_le_iff of_int_numeral of_int_power)
    show ?thesis
    proof (cases "?e < 1023")
      case True
      have "fl x \<le> 2 powi (?e + 1)" using assms True by (rule fl_le_next)
      moreover have "2 powi (?e + 1) \<le> fl x"
      proof -
        have "2 ^ 53 * 2 powi (?e - 52) \<le> of_int ?n * (2::real) powi (?e - 52)"
          using bigr by (intro mult_right_mono) simp_all
        then show ?thesis unfolding flx by (simp add: pow2_split[of ?e])
      qed
      ultimately have eq: "fl x = 2 powi (?e + 1)" by simp
      have "fl (of_int (2 ^ 52) * 2 powi (?e + 1 - 52)) = of_int (2 ^ 52) * 2 powi (?e + 1 - 52)"
        using expo_range[of x] True by (intro fl_representable) simp_all
      moreover have "of_int (2 ^ 52) * (2::real) powi (?e + 1 - 52) = 2 powi (?e + 1)"
        using pow2_split'[of "?e + 1"] by simp
      ultimately show ?thesis using eq by simp
    next
      case False
      then have e: "?e = 1023" using expo_range(2)[of x] by simp
      have "2 ^ 53 * 2 powi (?e - 52) \<le> of_int ?n * (2::real) powi (?e - 52)"
        using bigr by (intro mult_right_mono) simp_all
      then have ge: "2 powi (?e + 1) \<le> fl x" unfolding flx by (simp add: pow2_split[of ?e])
      have "(2::real) powi 1023 \<le> 2 powi (?e + 1)" by (intro pow2_mono) (simp add: e)
      then have ge2: "2 powi 1023 \<le> \<bar>fl x\<bar>" using ge by simp
      have ex: "expo (fl x) = 1023"
        by (rule expo_eqI) (use ge2 in simp_all)
      have "fl (fl x) = of_int (rne (fl x / 2 powi (1023 - 52))) * 2 powi (1023 - 52)"
        by (simp add: fl_def[of "fl x"] ulp_def ex)
      also have "fl x / 2 powi (1023 - 52) = of_int ?n"
        unfolding flx e by simp
      finally show ?thesis unfolding flx e by (simp add: rne_of_int)
    qed
  qed
qed

lemma fl_le_double: "0 \<le> x \<Longrightarrow> x \<le> fl a \<Longrightarrow> 0 \<le> a \<Longrightarrow> fl x \<le> fl a"
  using fl_mono[of x "fl a"] fl_idem[of a] by simp

lemma fl_ge_double: "0 \<le> a \<Longrightarrow> fl a \<le> x \<Longrightarrow> fl a \<le> fl x"
  using fl_mono[of "fl a" x] fl_idem[of a] fl_nonneg[of a] by simp

lemma fl_one: "fl 1 = 1"
  using fl_representable[of 0 "2 ^ 52"] by simp

lemma fl_hundred: "fl 100 = 100"
proof -
  have "fl (of_int (25 * 2 ^ 48) * 2 powi (6 - 52)) = of_int (25 * 2 ^ 48) * 2 powi (6 - 52)"
    by (rule fl_representable) simp_all
  moreover have "of_int (25 * 2 ^ 48) * (2::real) powi (6 - 52) = 100" by simp
  ultimately show ?thesis by simp
qed

lemma fl_pow2: "- 1022 \<le> k \<Longrightarrow> k \<le> 1023 \<Longrightarrow> fl (2 powi k) = 2 powi k"
  using fl_representable[of k "2 ^ 52"] pow2_split'[of k] by simp

lemma fl_le_pow2: "0 \<le> x \<Longrightarrow> x \<le> 2 powi k \<Longrightarrow> - 1022 \<le> k \<Longrightarrow> k \<le> 1023 \<Longrightarrow> fl x \<le> 2 powi k"
  using fl_mono[of x "2 powi k"] fl_pow2[of k] by simp

lemma fl_overflow:
  assumes "2 ^ 1024 \<le> x"
  shows "2 ^ 1024 \<le> fl x"
proof -
  have x: "(2::real) powi 1023 \<le> \<bar>x\<bar>" using assms by simp
  have ex: "expo x = 1023" by (rule expo_eqI) (use x in simp_all)
  have "of_int (2 ^ 53) * (2::real) powi (1023 - 52) \<le> x" using assms by simp
  then have "of_int (2 ^ 53) \<le> x / 2 powi (1023 - 52)" by (simp add: pos_le_divide_eq)
  then have "2 ^ 53 \<le> rne (x / 2 powi (1023 - 52))" by (rule rne_ge)
  then have "of_int (2 ^ 53) * (2::real) powi (1023 - 52) \<le> of_int (rne (x / 2 powi (1023 - 52))) * 2 powi (1023 - 52)"
    by (intro mult_right_mono) simp_all
  then show ?thesis by (simp add: fl_def ulp_def ex)
qed

lemma fl_int:
  assumes "0 \<le> n" "n < 2 ^ 53"
  shows "fl (of_int n) = of_int n"
proof (cases "n = 0")
  case True
  then show ?thesis by (simp add: fl_zero)
next
  case False
  let ?e = "expo (of_int n)"
  have n1: "(1::real) \<le> \<bar>of_int n\<bar>" using assms False by simp
  have e0: "0 \<le> ?e"
  proof (rule ccontr)
    assume "\<not> 0 \<le> ?e"
    then have lt: "?e < 0" by simp
    then have "\<bar>of_int n :: real\<bar> < 2 powi (?e + 1)" by (intro expo_upper) simp
    moreover have "(2::real) powi (?e + 1) \<le> 2 powi 0" using lt by (intro pow2_mono) simp
    ultimately show False using n1 by simp
  qed
  have e52: "?e \<le> 52"
  proof (rule ccontr)
    assume "\<not> ?e \<le> 52"
    then have gt: "52 < ?e" by simp
    then have "2 powi ?e \<le> \<bar>of_int n :: real\<bar>" by (intro expo_lower) simp
    moreover have "(2::real) powi 53 \<le> 2 powi ?e" using gt by (intro pow2_mono) simp
    moreover have "\<bar>of_int n :: real\<bar> < 2 ^ 53"
      using assms by (metis abs_of_nonneg of_int_0_le_iff of_int_less_iff of_int_numeral of_int_power)
    ultimately show False by simp
  qed
  have u: "(2::real) powi (?e - 52) * 2 ^ nat (52 - ?e) = 1"
  proof -
    have a: "(2::real) ^ nat (52 - ?e) = 2 powi (52 - ?e)" using e52 by (simp add: power_int_def)
    have "(2::real) powi ((?e - 52) + (52 - ?e)) = 2 powi (?e - 52) * 2 powi (52 - ?e)"
      by (rule power_int_add) simp
    then show ?thesis unfolding a by simp
  qed
  have "of_int n / (2::real) powi (?e - 52) = of_int n * 2 ^ nat (52 - ?e)"
    using u by (simp add: field_simps)
  also have "\<dots> = of_int (n * 2 ^ nat (52 - ?e))" by simp
  finally have "rne (of_int n / 2 powi (?e - 52)) = n * 2 ^ nat (52 - ?e)"
    by (simp only: rne_of_int)
  then have "fl (of_int n) = of_int (n * 2 ^ nat (52 - ?e)) * 2 powi (?e - 52)"
    by (simp add: fl_def ulp_def)
  also have "\<dots> = of_int n * ((2::real) powi (?e - 52) * 2 ^ nat (52 - ?e))" by simp
  finally show ?thesis using u by simp
qed

section \<open>The controller in double precision\<close>

lemma get_heat_membership_double_eq:
  "get_heat_membership_double t =
    [(''low'', if t \<le> 120 then max 0 (fl (fl (120 - t) / 50)) else 0),
     (''medium'', if 100 \<le> t \<and> t \<le> 180
                  then (if t \<le> 140 then fl (fl (t - 100) / 40) else fl (fl (180 - t) / 40)) else 0),
     (''high'', if 150 \<le> t \<and> t \<le> 220
                then (if t \<le> 185 then fl (fl (t - 150) / 35) else fl (fl (220 - t) / 35)) else 0),
     (''critical'', if 200 \<le> t then min 1 (fl (fl (t - 200) / 100)) else 0)]"
  by (simp add: get_heat_membership_double_def Let_def)

lemma get_duration_membership_double_eq:
  "get_duration_membership_double d =
    [(''short'', if d \<le> 15 then max 0 (fl (fl (15 - d) / 15)) else 0),
     (''medium'', if 10 \<le> d \<and> d \<le> 35
                  then (if d \<le> 22.5 then fl (fl (d - 10) / 12.5) else fl (fl (35 - d) / 12.5)) else 0),
     (''long'', if 25 \<le> d then min 1 (fl (fl (d - 25) / 35)) else 0)]"
  by (simp add: get_duration_membership_double_def Let_def)

lemma nonneg_double_simps: "nonneg_double 0" "nonneg_double 1"
  by (simp_all add: nonneg_double_def fl_zero fl_one)

lemma nonneg_double_fl: "0 \<le> y \<Longrightarrow> nonneg_double (fl y)"
  by (simp add: nonneg_double_def fl_nonneg fl_idem)

lemma nonneg_double_max0: "nonneg_double v \<Longrightarrow> nonneg_double (max 0 v)"
  by (simp add: nonneg_double_def max_def)

lemma nonneg_double_min1: "nonneg_double v \<Longrightarrow> nonneg_double (min 1 v)"
  by (simp add: nonneg_double_def min_def fl_one)

lemma nonneg_double_min: "nonneg_double a \<Longrightarrow> nonneg_double b \<Longrightarrow> nonneg_double (min a b)"
  by (simp add: min_def)

lemma heat_double_values:
  "\<forall>k\<in>set heat_categories. \<exists>v. map_of (get_heat_membership_double t) k = Some v \<and> nonneg_double v"
  by (simp add: heat_categories_def get_heat_membership_double_eq nonneg_double_simps
      nonneg_double_fl fl_nonneg nonneg_double_max0 nonneg_double_min1)

lemma duration_double_values:
  "\<forall>k\<in>set duration_categories. \<exists>v. map_of (get_duration_membership_double d) k = Some v \<and> nonneg_double v"
  by (simp add: duration_categories_def get_duration_membership_double_eq nonneg_double_simps
      nonneg_double_fl fl_nonneg nonneg_double_max0 nonneg_double_min1)

lemma fl_unit: "0 \<le> x \<Longrightarrow> x \<le> 1 \<Longrightarrow> 0 \<le> fl x \<and> fl x \<le> 1"
  using fl_nonneg[of x] fl_mono[of x 1] by (simp add: fl_one)

lemma rules_double_heat_keys: "r \<in> set rules_double \<Longrightarrow> rule_heat r \<in> set heat_categories"
  by (auto simp: rules_double_def heat_categories_def)

lemma rules_double_duration_keys: "r \<in> set rules_double \<Longrightarrow> rule_duration r \<in> set duration_categories"
  by (auto simp: rules_double_def duration_categories_def)

lemma rules_double_output_unit: "r \<in> set rules_double \<Longrightarrow> 0 \<le> rule_output r \<and> rule_output r \<le> 1"
  by (auto simp: rules_double_def fl_unit)

lemma rule_loop_double_bounds:
  assumes H: "\<And>r. r \<in> set rs \<Longrightarrow> \<exists>v. map_of hm (rule_heat r) = Some v \<and> nonneg_double v"
      and D: "\<And>r. r \<in> set rs \<Longrightarrow> \<exists>v. map_of dm (rule_duration r) = Some v \<and> nonneg_double v"
      and O: "\<And>r. r \<in> set rs \<Longrightarrow> 0 \<le> rule_output r \<and> rule_output r \<le> 1"
      and n: "0 \<le> n" "n \<le> dn"
  shows "\<exists>n' dn'. rule_loop_double hm dm rs (n, dn) = Inr (n', dn') \<and> 0 \<le> n' \<and> n' \<le> dn'"
  using assms
proof (induction rs arbitrary: n dn)
  case Nil
  then show ?case by simp
next
  case (Cons r rs)
  obtain hv where hv: "map_of hm (rule_heat r) = Some hv" "nonneg_double hv"
    using Cons.prems(1)[of r] by auto
  obtain dv where dv: "map_of dm (rule_duration r) = Some dv" "nonneg_double dv"
    using Cons.prems(2)[of r] by auto
  define s where "s = min hv dv"
  have s: "0 \<le> s" "fl s = s"
    using nonneg_double_min[OF hv(2) dv(2)] by (simp_all add: s_def nonneg_double_def)
  have o: "0 \<le> rule_output r" "rule_output r \<le> 1" using Cons.prems(3)[of r] by simp_all
  define a where "a = fl (s * rule_output r)"
  have so: "0 \<le> s * rule_output r" "s * rule_output r \<le> s"
    using s(1) o by (simp_all add: mult_left_le)
  have a0: "0 \<le> a" unfolding a_def using so(1) by (rule fl_nonneg)
  have "fl (s * rule_output r) \<le> fl s" using so by (rule fl_mono)
  then have as: "a \<le> s" unfolding a_def using s(2) by simp
  have n2: "0 \<le> fl (n + a)" using Cons.prems(4) a0 by (intro fl_nonneg) simp
  have nd2: "fl (n + a) \<le> fl (dn + s)"
    using Cons.prems(4,5) a0 as by (intro fl_mono) simp_all
  have step: "rule_loop_double hm dm (r # rs) (n, dn) = rule_loop_double hm dm rs (fl (n + a), fl (dn + s))"
    using hv(1) dv(1) by (simp add: getitem_def Let_def a_def s_def)
  have "\<exists>n' dn'. rule_loop_double hm dm rs (fl (n + a), fl (dn + s)) = Inr (n', dn') \<and> 0 \<le> n' \<and> n' \<le> dn'"
    using Cons.prems(1,2,3) n2 nd2 by (intro Cons.IH) simp_all
  then show ?case unfolding step .
qed

lemma get_fuzzy_output_double_unit:
  "\<exists>wo. get_fuzzy_output_double (get_heat_membership_double t) (get_duration_membership_double d) = Inr wo
        \<and> 0 \<le> wo \<and> wo \<le> 1"
proof -
  obtain n dn where loop:
    "rule_loop_double (get_heat_membership_double t) (get_duration_membership_double d) rules_double (0, 0)
       = Inr (n, dn)" "0 \<le> n" "n \<le> dn"
    using rule_loop_double_bounds[of rules_double "get_heat_membership_double t"
        "get_duration_membership_double d" 0 0]
      heat_double_values[of t] duration_double_values[of d]
      rules_double_heat_keys rules_double_duration_keys rules_double_output_unit
    by auto
  show ?thesis
  proof (cases "0 < dn")
    case True
    have "0 \<le> n / dn" "n / dn \<le> 1" using loop(2,3) True by simp_all
    then have "0 \<le> fl (n / dn) \<and> fl (n / dn) \<le> 1" by (rule fl_unit)
    then show ?thesis using loop(1) True by (simp add: get_fuzzy_output_double_def truediv_double_def)
  next
    case False
    then show ?thesis using loop(1) by (simp add: get_fuzzy_output_double_def)
  qed
qed

lemma heat_double_dominant:
  "\<exists>k. get_dominant_membership (get_heat_membership_double t) = Inr k
        \<and> first_maximum (get_heat_membership_double t) k"
proof (rule get_dominant_first_maximum)
  show "get_heat_membership_double t \<noteq> []" by (simp add: get_heat_membership_double_eq)
  show "\<forall>p\<in>set (get_heat_membership_double t). fst p \<noteq> [] \<and> 0 \<le> snd p"
    using heat_double_values[of t]
    by (simp add: get_heat_membership_double_eq heat_categories_def nonneg_double_def)
qed

lemma duration_double_dominant:
  "\<exists>k. get_dominant_membership (get_duration_membership_double d) = Inr k
        \<and> first_maximum (get_duration_membership_double d) k"
proof (rule get_dominant_first_maximum)
  show "get_duration_membership_double d \<noteq> []" by (simp add: get_duration_membership_double_eq)
  show "\<forall>p\<in>set (get_duration_membership_double d). fst p \<noteq> [] \<and> 0 \<le> snd p"
    using duration_double_values[of d]
    by (simp add: get_duration_membership_double_eq duration_categories_def nonneg_double_def)
qed

lemma truncate_nonneg: "0 \<le> x \<Longrightarrow> 0 \<le> truncate x"
  by (simp add: truncate_def)

lemma truncate_le: "0 \<le> x \<Longrightarrow> x \<le> of_int n \<Longrightarrow> truncate x \<le> n"
  by (simp add: truncate_def floor_le_iff)

lemma spray_product:
  assumes h: "1 \<le> h" and w: "0 \<le> wo" "wo \<le> 1"
  shows "fmul (fmul (Finite 5000) (Finite h)) (Finite (max 0.5 wo)) =
           (if 2 ^ 1024 \<le> fl (5000 * h) then PosInf
            else Finite (fl (fl (5000 * h) * max 0.5 wo)))"
    and "0 \<le> fl (fl (5000 * h) * max 0.5 wo)"
proof -
  let ?p = "fl (5000 * h)"
  let ?m = "max 0.5 wo"
  have p0: "0 \<le> ?p" using h by (intro fl_nonneg) simp
  have m: "0 < ?m" "?m \<le> 1" using w by simp_all
  have q0: "0 \<le> fl (?p * ?m)" using p0 m(1) by (intro fl_nonneg) simp
  then show "0 \<le> fl (fl (5000 * h) * max 0.5 wo)" .
  have "?p * ?m \<le> ?p" using p0 m by (simp add: mult_left_le)
  then have qp: "fl (?p * ?m) \<le> ?p"
    using p0 m(1) h by (intro fl_le_double) simp_all
  show "fmul (fmul (Finite 5000) (Finite h)) (Finite ?m) =
           (if 2 ^ 1024 \<le> ?p then PosInf else Finite (fl (?p * ?m)))"
  proof (cases "2 ^ 1024 \<le> ?p")
    case True
    then show ?thesis using m(1) by (simp add: finite_or_inf_def)
  next
    case False
    then have "fmul (Finite 5000) (Finite h) = Finite ?p"
      using p0 by (simp add: finite_or_inf_def)
    moreover have "finite_or_inf (fl (?p * ?m)) = Finite (fl (?p * ?m))"
      using False qp q0 by (simp add: finite_or_inf_def)
    ultimately show ?thesis using False by simp
  qed
qed

lemma pressure_product:
  assumes "0 \<le> wo" "wo \<le> 1"
  shows "fmul (Finite wo) (Finite 100) = Finite (fl (wo * 100))"
    and "0 \<le> fl (wo * 100)" and "fl (wo * 100) \<le> 100"
proof -
  show a: "0 \<le> fl (wo * 100)" using assms by (intro fl_nonneg) simp
  have "fl (wo * 100) \<le> fl 100" using assms by (intro fl_mono) simp_all
  then show b: "fl (wo * 100) \<le> 100" by (simp add: fl_hundred)
  show "fmul (Finite wo) (Finite 100) = Finite (fl (wo * 100))"
    using a b by (simp add: finite_or_inf_def)
qed

lemma calculate_system_response_cases:
  "\<exists>wo dh dd.
      get_fuzzy_output_double (get_heat_membership_double t) (get_duration_membership_double d) = Inr wo
    \<and> 0 \<le> wo \<and> wo \<le> 1
    \<and> get_dominant_membership (get_heat_membership_double t) = Inr dh
    \<and> get_dominant_membership (get_duration_membership_double d) = Inr dd
    \<and> calculate_system_response t d =
        (if 2 ^ 1024 \<le> fl (5000 * max 1 (fl (fl (t - 155) / 50))) then Inl OverflowError
         else Inr \<lparr>heat_memberships = get_heat_membership_double t,
                   duration_memberships = get_duration_membership_double d,
                   water_output = wo,
                   dominant_heat = capitalize dh,
                   dominant_duration = capitalize dd,
                   should_trigger = (155 \<le> t \<and> 0 < d),
                   spray_duration =
                     truncate (fl (fl (5000 * max 1 (fl (fl (t - 155) / 50))) * max 0.5 wo)),
                   system_status = (if 155 \<le> t \<and> 0 < d then ''ACTIVE''
                                    else if 140 \<le> t then ''WARNING'' else ''STANDBY''),
                   status_color = (if 155 \<le> t \<and> 0 < d then ''#ff4444''
                                   else if 140 \<le> t then ''#ffa726'' else ''#4ecdc4''),
                   water_level = (if 0 < wo
                                  then (if wo < fl 0.3 then ''Low''
                                        else if wo < fl 0.7 then ''Medium'' else ''High'')
                                  else ''None''),
                   water_pressure = truncate (fl (wo * 100))\<rparr>)"
proof -
  obtain wo where wo:
    "get_fuzzy_output_double (get_heat_membership_double t) (get_duration_membership_double d) = Inr wo"
    "0 \<le> wo" "wo \<le> 1"
    using get_fuzzy_output_double_unit by blast
  obtain dh where dh: "get_dominant_membership (get_heat_membership_double t) = Inr dh"
    using heat_double_dominant by blast
  obtain dd where dd: "get_dominant_membership (get_duration_membership_double d) = Inr dd"
    using duration_double_dominant by blast
  have h: "1 \<le> max 1 (fl (fl (t - 155) / 50))" by simp
  note sp = spray_product[OF h wo(2,3)]
  note pr = pressure_product[OF wo(2,3)]
  have "calculate_system_response t d =
        (case py_int (fmul (fmul (Finite 5000) (Finite (max 1 (fl (fl (t - 155) / 50))))) (Finite (max 0.5 wo))) of
           Inl e \<Rightarrow> Inl e
         | Inr spray_ms \<Rightarrow>
            (case py_int (fmul (Finite wo) (Finite 100)) of
               Inl e \<Rightarrow> Inl e
             | Inr pressure \<Rightarrow> Inr \<lparr>heat_memberships = get_heat_membership_double t,
                   duration_memberships = get_duration_membership_double d,
                   water_output = wo,
                   dominant_heat = capitalize dh,
                   dominant_duration = capitalize dd,
                   should_trigger = (155 \<le> t \<and> 0 < d),
                   spray_duration = spray_ms,
                   system_status = (if 155 \<le> t \<and> 0 < d then ''ACTIVE''
                                    else if 140 \<le> t then ''WARNING'' else ''STANDBY''),
                   status_color = (if 155 \<le> t \<and> 0 < d then ''#ff4444''
                                   else if 140 \<le> t then ''#ffa726'' else ''#4ecdc4''),
                   water_level = (if 0 < wo
                                  then (if wo < fl 0.3 then ''Low''
                                        else if wo < fl 0.7 then ''Medium'' else ''High'')
                                  else ''None''),
                   water_pressure = pressure\<rparr>))"
    by (auto simp add: calculate_system_response_def Let_def wo(1) dh dd simp del: fmul.simps)
  also have "\<dots> =
        (if 2 ^ 1024 \<le> fl (5000 * max 1 (fl (fl (t - 155) / 50))) then Inl OverflowError
         else Inr \<lparr>heat_memberships = get_heat_membership_double t,
                   duration_memberships = get_duration_membership_double d,
                   water_output = wo,
                   dominant_heat = capitalize dh,
                   dominant_duration = capitalize dd,
                   should_trigger = (155 \<le> t \<and> 0 < d),
                   spray_duration = 
                     truncate (fl (fl (5000 * max 1 (fl (fl (t - 155) / 50))) * max 0.5 wo)),
                   system_status = (if 155 \<le> t \<and> 0 < d then ''ACTIVE''
                                    else if 140 \<le> t then ''WARNING'' else ''STANDBY''),
                   status_color = (if 155 \<le> t \<and> 0 < d then ''#ff4444''
                                   else if 140 \<le> t then ''#ffa726'' else ''#4ecdc4''),
                   water_level = (if 0 < wo
                                  then (if wo < fl 0.3 then ''Low''
                                        else if wo < fl 0.7 then ''Medium'' else ''High'')
                                  else ''None''),
                   water_pressure = truncate (fl (wo * 100))\<rparr>)"
    unfolding sp(1) pr(1) by simp
  finally have "calculate_system_response t d =
        (if 2 ^ 1024 \<le> fl (5000 * max 1 (fl (fl (t - 155) / 50))) then Inl OverflowError
         else Inr \<lparr>heat_memberships = get_heat_membership_double t,
                   duration_memberships = get_duration_membership_double d,
                   water_output = wo,
                   dominant_heat = capitalize dh,
                   dominant_duration = capitalize dd,
                   should_trigger = (155 \<le> t \<and> 0 < d),
                   spray_duration = 
                     truncate (fl (fl (5000 * max 1 (fl (fl (t - 155) / 50))) * max 0.5 wo)),
                   system_status = (if 155 \<le> t \<and> 0 < d then ''ACTIVE''
                                    else if 140 \<le> t then ''WARNING'' else ''STANDBY''),
                   status_color = (if 155 \<le> t \<and> 0 < d then ''#ff4444''
                                   else if 140 \<le> t then ''#ffa726'' else ''#4ecdc4''),
                   water_level = (if 0 < wo
                                  then (if wo < fl 0.3 then ''Low''
                                        else if wo < fl 0.7 then ''Medium'' else ''High'')
                                  else ''None''),
                   water_pressure = truncate (fl (wo * 100))\<rparr>)" .
  then show ?thesis using wo dh dd by blast
qed

text \<open>No overflow up to 2 ^ 1000 degrees, overflow from 2 ^ 1020 degrees on.\<close>

lemma heat_multiplier_le:
  assumes "t \<le> 2 ^ 1000"
  shows "max 1 (fl (fl (t - 155) / 50)) \<le> 2 powi 1000"
proof (cases "0 \<le> t - 155")
  case True
  have "fl (t - 155) \<le> 2 powi 1000" using True assms by (intro fl_le_pow2) simp_all
  moreover have "0 \<le> fl (t - 155)" using True by (rule fl_nonneg)
  ultimately have "0 \<le> fl (t - 155) / 50" "fl (t - 155) / 50 \<le> 2 powi 1000" by simp_all
  then have "fl (fl (t - 155) / 50) \<le> 2 powi 1000" by (intro fl_le_pow2) simp_all
  then show ?thesis by simp
next
  case False
  then have "fl (t - 155) \<le> 0" by (intro fl_nonpos) simp
  then have "fl (fl (t - 155) / 50) \<le> 0" by (intro fl_nonpos) (simp add: divide_nonpos_pos)
  then show ?thesis by simp
qed

lemma no_overflow_up_to:
  assumes "t \<le> 2 ^ 1000"
  shows "fl (5000 * max 1 (fl (fl (t - 155) / 50))) < 2 ^ 1024"
proof -
  let ?h = "max 1 (fl (fl (t - 155) / 50))"
  have "?h \<le> 2 powi 1000" using assms by (rule heat_multiplier_le)
  then have "5000 * ?h \<le> 2 ^ 13 * 2 powi 1000" by (intro mult_mono) simp_all
  also have "\<dots> = 2 powi 1013" by simp
  finally have "fl (5000 * ?h) \<le> 2 powi 1013" by (intro fl_le_pow2) simp_all
  moreover have "(2::real) powi 1013 < 2 ^ 1024" by simp
  ultimately show ?thesis by simp
qed

lemma overflow_from:
  assumes "2 ^ 1020 \<le> t"
  shows "2 ^ 1024 \<le> fl (5000 * max 1 (fl (fl (t - 155) / 50)))"
proof -
  have "(2::real) powi 1019 \<le> 2 ^ 1020 - 155" by simp
  then have a: "2 powi 1019 \<le> t - 155" using assms by simp
  have "fl (2 powi 1019) \<le> fl (t - 155)" using a by (intro fl_mono) simp_all
  then have b: "2 powi 1019 \<le> fl (t - 155)" using fl_pow2[of 1019] by simp
  have "(2::real) powi 1013 \<le> 2 powi 1019 / 50" by simp
  then have c: "2 powi 1013 \<le> fl (t - 155) / 50" using b by simp
  have "fl (2 powi 1013) \<le> fl (fl (t - 155) / 50)" using c by (intro fl_mono) simp_all
  then have "2 powi 1013 \<le> fl (fl (t - 155) / 50)" using fl_pow2[of 1013] by simp
  then have "2 powi 1013 \<le> max 1 (fl (fl (t - 155) / 50))" by simp
  then have "5000 * 2 powi 1013 \<le> 5000 * max 1 (fl (fl (t - 155) / 50))" by simp
  moreover have "(2::real) ^ 1024 \<le> 5000 * 2 powi 1013" by simp
  ultimately have "2 ^ 1024 \<le> 5000 * max 1 (fl (fl (t - 155) / 50))" by simp
  then show ?thesis by (rule fl_overflow)
qed

section \<open>Some category always fires, in double precision\<close>

text \<open>
  The supports overlap by a margin, so at every input one heat degree and one duration
  degree are positive also after rounding, and the denominator the double loop returns
  is positive: the fallback 0 of the defuzzifier is not reached in double precision
  either.
\<close>

lemma fl_quot_pos:
  assumes "2 \<le> a" "0 < c" "c \<le> 128"
  shows "0 < fl (fl a / c)"
proof -
  have "fl (2 powi 1) \<le> fl a" using assms(1) by (intro fl_mono) simp_all
  then have a2: "2 \<le> fl a" using fl_pow2[of 1] by simp
  have "2 / 128 \<le> fl a / c" using a2 assms(2,3) by (intro frac_le) simp_all
  then have q: "2 powi (- 6) \<le> fl a / c" by (simp add: power_int_minus)
  have "fl (2 powi (- 6)) \<le> fl (fl a / c)" using q by (intro fl_mono) simp_all
  then have "2 powi (- 6) \<le> fl (fl a / c)" using fl_pow2[of "- 6"] by simp
  moreover have "(0::real) < 2 powi (- 6)" by simp
  ultimately show ?thesis by linarith
qed

lemma heat_double_some_positive:
  "\<exists>k\<in>set heat_categories. 0 < value_of (get_heat_membership_double t) k"
proof -
  consider "t \<le> 110" | "110 < t \<and> t \<le> 140" | "140 < t \<and> t \<le> 170"
    | "170 < t \<and> t \<le> 185" | "185 < t \<and> t \<le> 210" | "210 < t" by linarith
  then show ?thesis
  proof cases
    case 1
    then have "0 < fl (fl (120 - t) / 50)" by (intro fl_quot_pos) simp_all
    then have "0 < value_of (get_heat_membership_double t) ''low''"
      using 1 by (simp add: get_heat_membership_double_eq value_of_def)
    then show ?thesis by (auto simp: heat_categories_def)
  next
    case 2
    then have "0 < fl (fl (t - 100) / 40)" by (intro fl_quot_pos) simp_all
    then have "0 < value_of (get_heat_membership_double t) ''medium''"
      using 2 by (simp add: get_heat_membership_double_eq value_of_def)
    then show ?thesis by (auto simp: heat_categories_def)
  next
    case 3
    then have "0 < fl (fl (180 - t) / 40)" by (intro fl_quot_pos) simp_all
    then have "0 < value_of (get_heat_membership_double t) ''medium''"
      using 3 by (simp add: get_heat_membership_double_eq value_of_def)
    then show ?thesis by (auto simp: heat_categories_def)
  next
    case 4
    then have "0 < fl (fl (t - 150) / 35)" by (intro fl_quot_pos) simp_all
    then have "0 < value_of (get_heat_membership_double t) ''high''"
      using 4 by (simp add: get_heat_membership_double_eq value_of_def)
    then show ?thesis by (auto simp: heat_categories_def)
  next
    case 5
    then have "0 < fl (fl (220 - t) / 35)" by (intro fl_quot_pos) simp_all
    then have "0 < value_of (get_heat_membership_double t) ''high''"
      using 5 by (simp add: get_heat_membership_double_eq value_of_def)
    then show ?thesis by (auto simp: heat_categories_def)
  next
    case 6
    then have "0 < fl (fl (t - 200) / 100)" by (intro fl_quot_pos) simp_all
    then have "0 < value_of (get_heat_membership_double t) ''critical''"
      using 6 by (simp add: get_heat_membership_double_eq value_of_def)
    then show ?thesis by (auto simp: heat_categories_def)
  qed
qed

lemma duration_double_some_positive:
  "\<exists>k\<in>set duration_categories. 0 < value_of (get_duration_membership_double d) k"
proof -
  consider "d \<le> 12" | "12 < d \<and> d \<le> 22.5" | "22.5 < d \<and> d \<le> 30" | "30 < d" by linarith
  then show ?thesis
  proof cases
    case 1
    then have "0 < fl (fl (15 - d) / 15)" by (intro fl_quot_pos) simp_all
    then have "0 < value_of (get_duration_membership_double d) ''short''"
      using 1 by (simp add: get_duration_membership_double_eq value_of_def)
    then show ?thesis by (auto simp: duration_categories_def)
  next
    case 2
    then have "0 < fl (fl (d - 10) / 12.5)" by (intro fl_quot_pos) simp_all
    then have "0 < value_of (get_duration_membership_double d) ''medium''"
      using 2 by (simp add: get_duration_membership_double_eq value_of_def)
    then show ?thesis by (auto simp: duration_categories_def)
  next
    case 3
    then have "0 < fl (fl (35 - d) / 12.5)" by (intro fl_quot_pos) simp_all
    then have "0 < value_of (get_duration_membership_double d) ''medium''"
      using 3 by (simp add: get_duration_membership_double_eq value_of_def)
    then show ?thesis by (auto simp: duration_categories_def)
  next
    case 4
    then have "0 < fl (fl (d - 25) / 35)" by (intro fl_quot_pos) simp_all
    then have "0 < value_of (get_duration_membership_double d) ''long''"
      using 4 by (simp add: get_duration_membership_double_eq value_of_def)
    then show ?thesis by (auto simp: duration_categories_def)
  qed
qed

text \<open>The denominator of the double loop never decreases and reaches every strength.\<close>

lemma rule_loop_double_denominator:
  assumes H: "\<And>r. r \<in> set rs \<Longrightarrow> map_of hm (rule_heat r) = Some (value_of hm (rule_heat r))
                 \<and> nonneg_double (value_of hm (rule_heat r))"
      and D: "\<And>r. r \<in> set rs \<Longrightarrow> map_of dm (rule_duration r) = Some (value_of dm (rule_duration r))
                 \<and> nonneg_double (value_of dm (rule_duration r))"
      and dn: "nonneg_double dn"
      and run: "rule_loop_double hm dm rs (n, dn) = Inr (n', dn')"
  shows "dn \<le> dn' \<and> (\<forall>r\<in>set rs. min (value_of hm (rule_heat r)) (value_of dm (rule_duration r)) \<le> dn')"
  using assms
proof (induction rs arbitrary: n dn)
  case Nil
  then show ?case by simp
next
  case (Cons r rs)
  define s where "s = min (value_of hm (rule_heat r)) (value_of dm (rule_duration r))"
  have hv: "map_of hm (rule_heat r) = Some (value_of hm (rule_heat r))"
       "nonneg_double (value_of hm (rule_heat r))" using Cons.prems(1)[of r] by simp_all
  have dv: "map_of dm (rule_duration r) = Some (value_of dm (rule_duration r))"
       "nonneg_double (value_of dm (rule_duration r))" using Cons.prems(2)[of r] by simp_all
  have s: "0 \<le> s" "fl s = s"
    using nonneg_double_min[OF hv(2) dv(2)] by (simp_all add: s_def nonneg_double_def)
  have d0: "0 \<le> dn" "fl dn = dn" using Cons.prems(3) by (simp_all add: nonneg_double_def)
  have nd: "nonneg_double (fl (dn + s))" using d0(1) s(1) by (intro nonneg_double_fl) simp
  have "fl dn \<le> fl (dn + s)" using d0(1) s(1) by (intro fl_mono) simp_all
  then have ge1: "dn \<le> fl (dn + s)" using d0(2) by simp
  have "fl s \<le> fl (dn + s)" using d0(1) s(1) by (intro fl_mono) simp_all
  then have ge2: "s \<le> fl (dn + s)" using s(2) by simp
  have step: "rule_loop_double hm dm rs (fl (n + fl (s * rule_output r)), fl (dn + s)) = Inr (n', dn')"
    using Cons.prems(4) hv(1) dv(1) by (simp add: getitem_def Let_def s_def)
  have ih: "fl (dn + s) \<le> dn'
      \<and> (\<forall>r\<in>set rs. min (value_of hm (rule_heat r)) (value_of dm (rule_duration r)) \<le> dn')"
    using Cons.prems(1,2) nd step by (intro Cons.IH) simp_all
  show ?case using ih ge1 ge2 by (auto simp: s_def)
qed

lemma rules_double_cover:
  "hk \<in> set heat_categories \<Longrightarrow> dk \<in> set duration_categories \<Longrightarrow>
     \<exists>r\<in>set rules_double. rule_heat r = hk \<and> rule_duration r = dk"
  by (auto simp: heat_categories_def duration_categories_def rules_double_def)

lemma denominator_double_positive:
  "\<exists>n dn. rule_loop_double (get_heat_membership_double t) (get_duration_membership_double d)
             rules_double (0, 0) = Inr (n, dn)
         \<and> 0 < dn
         \<and> get_fuzzy_output_double (get_heat_membership_double t) (get_duration_membership_double d)
             = truediv_double n dn
         \<and> truediv_double n dn = Inr (fl (n / dn))"
proof -
  let ?hm = "get_heat_membership_double t"
  let ?dm = "get_duration_membership_double d"
  have H: "\<And>k. k \<in> set heat_categories \<Longrightarrow>
             map_of ?hm k = Some (value_of ?hm k) \<and> nonneg_double (value_of ?hm k)"
    using heat_double_values[of t] by (auto simp: value_of_def)
  have D: "\<And>k. k \<in> set duration_categories \<Longrightarrow>
             map_of ?dm k = Some (value_of ?dm k) \<and> nonneg_double (value_of ?dm k)"
    using duration_double_values[of d] by (auto simp: value_of_def)
  obtain n dn where loop: "rule_loop_double ?hm ?dm rules_double (0, 0) = Inr (n, dn)"
    using rule_loop_double_bounds[of rules_double ?hm ?dm 0 0]
      heat_double_values[of t] duration_double_values[of d]
      rules_double_heat_keys rules_double_duration_keys rules_double_output_unit
    by auto
  have all: "\<forall>r\<in>set rules_double. min (value_of ?hm (rule_heat r)) (value_of ?dm (rule_duration r)) \<le> dn"
    using rule_loop_double_denominator[of rules_double ?hm ?dm 0 0 n dn]
      H D rules_double_heat_keys rules_double_duration_keys loop nonneg_double_simps(1)
    by simp
  obtain hk where hk: "hk \<in> set heat_categories" "0 < value_of ?hm hk"
    using heat_double_some_positive by blast
  obtain dk where dk: "dk \<in> set duration_categories" "0 < value_of ?dm dk"
    using duration_double_some_positive by blast
  obtain r where r: "r \<in> set rules_double" "rule_heat r = hk" "rule_duration r = dk"
    using rules_double_cover[OF hk(1) dk(1)] by blast
  have "min (value_of ?hm hk) (value_of ?dm dk) \<le> dn" using all r by auto
  then have pos: "0 < dn" using hk(2) dk(2) by simp
  show ?thesis using loop pos by (simp add: get_fuzzy_output_double_def truediv_double_def)
qed

section \<open>The double model at concrete inputs\<close>

text \<open>
  Every rounding the controller performs at the inputs (250, 30), (235, 0), (268, 0) and
  (111, 32), evaluated from the definition of \<open>fl\<close>, and the response at each of them.
\<close>

lemma capitalize_categories:
  "capitalize ''low'' = ''Low''"
  "capitalize ''medium'' = ''Medium''"
  "capitalize ''high'' = ''High''"
  "capitalize ''critical'' = ''Critical''"
  "capitalize ''short'' = ''Short''"
  "capitalize ''long'' = ''Long''"
  by code_simp+

lemma fl_eval_1: "fl (50) = 50"
proof -
  have "fl (50) = of_int (7036874417766400) * 2 powi (5 - 52)"
    by (rule fl_eqI) (simp_all add: rne_def)
  then show ?thesis by simp
qed

lemma fl_eval_2: "fl (1 / 2) = 1 / 2"
proof -
  have "fl (1 / 2) = of_int (4503599627370496) * 2 powi (- 1 - 52)"
    by (rule fl_eqI) (simp_all add: rne_def)
  then show ?thesis by simp
qed

lemma fl_eval_3: "fl (5) = 5"
proof -
  have "fl (5) = of_int (5629499534213120) * 2 powi (2 - 52)"
    by (rule fl_eqI) (simp_all add: rne_def)
  then show ?thesis by simp
qed

lemma fl_eval_4: "fl (2 / 5) = 3602879701896397 / 9007199254740992"
proof -
  have "fl (2 / 5) = of_int (7205759403792794) * 2 powi (- 2 - 52)"
    by (rule fl_eqI) (simp_all add: rne_def)
  then show ?thesis by simp
qed

lemma fl_eval_5: "fl (1 / 7) = 2573485501354569 / 18014398509481984"
proof -
  have "fl (1 / 7) = of_int (5146971002709138) * 2 powi (- 3 - 52)"
    by (rule fl_eqI) (simp_all add: rne_def)
  then show ?thesis by simp
qed

lemma fl_eval_6: "fl (1 / 5) = 3602879701896397 / 18014398509481984"
proof -
  have "fl (1 / 5) = of_int (7205759403792794) * 2 powi (- 3 - 52)"
    by (rule fl_eqI) (simp_all add: rne_def)
  then show ?thesis by simp
qed

lemma fl_eval_7: "fl (3 / 5) = 5404319552844595 / 9007199254740992"
proof -
  have "fl (3 / 5) = of_int (5404319552844595) * 2 powi (- 1 - 52)"
    by (rule fl_eqI) (simp_all add: rne_def)
  then show ?thesis by simp
qed

lemma fl_eval_8: "fl (4 / 5) = 3602879701896397 / 4503599627370496"
proof -
  have "fl (4 / 5) = of_int (7205759403792794) * 2 powi (- 1 - 52)"
    by (rule fl_eqI) (simp_all add: rne_def)
  then show ?thesis by simp
qed

lemma fl_eval_9: "fl (3602879701896397 / 9007199254740992) = 3602879701896397 / 9007199254740992"
proof -
  have "fl (3602879701896397 / 9007199254740992) = of_int (7205759403792794) * 2 powi (- 2 - 52)"
    by (rule fl_eqI) (simp_all add: rne_def)
  then show ?thesis by simp
qed

lemma fl_eval_10: "fl (2573485501354569 / 18014398509481984) = 2573485501354569 / 18014398509481984"
proof -
  have "fl (2573485501354569 / 18014398509481984) = of_int (5146971002709138) * 2 powi (- 3 - 52)"
    by (rule fl_eqI) (simp_all add: rne_def)
  then show ?thesis by simp
qed

lemma fl_eval_11: "fl (9779244905147363 / 18014398509481984) = 2444811226286841 / 4503599627370496"
proof -
  have "fl (9779244905147363 / 18014398509481984) = of_int (4889622452573682) * 2 powi (- 1 - 52)"
    by (rule fl_eqI) (simp_all add: rne_def)
  then show ?thesis by simp
qed

lemma fl_eval_12: "fl (1) = 1"
proof -
  have "fl (1) = of_int (4503599627370496) * 2 powi (0 - 52)"
    by (rule fl_eqI) (simp_all add: rne_def)
  then show ?thesis by simp
qed

lemma fl_eval_13: "fl (95) = 95"
proof -
  have "fl (95) = of_int (6685030696878080) * 2 powi (6 - 52)"
    by (rule fl_eqI) (simp_all add: rne_def)
  then show ?thesis by simp
qed

lemma fl_eval_14: "fl (19 / 10) = 4278419646001971 / 2251799813685248"
proof -
  have "fl (19 / 10) = of_int (8556839292003942) * 2 powi (0 - 52)"
    by (rule fl_eqI) (simp_all add: rne_def)
  then show ?thesis by simp
qed

lemma fl_eval_15: "fl (2674012278751231875 / 281474976710656) = 9500"
proof -
  have "fl (2674012278751231875 / 281474976710656) = of_int (5222680231936000) * 2 powi (13 - 52)"
    by (rule fl_eqI) (simp_all add: rne_def)
  then show ?thesis by simp
qed

lemma fl_eval_16: "fl (9500) = 9500"
proof -
  have "fl (9500) = of_int (5222680231936000) * 2 powi (13 - 52)"
    by (rule fl_eqI) (simp_all add: rne_def)
  then show ?thesis by simp
qed

lemma fl_eval_17: "fl (100) = 100"
proof -
  have "fl (100) = of_int (7036874417766400) * 2 powi (6 - 52)"
    by (rule fl_eqI) (simp_all add: rne_def)
  then show ?thesis by simp
qed

lemma fl_eval_18: "fl (3 / 10) = 5404319552844595 / 18014398509481984"
proof -
  have "fl (3 / 10) = of_int (5404319552844595) * 2 powi (- 2 - 52)"
    by (rule fl_eqI) (simp_all add: rne_def)
  then show ?thesis by simp
qed

lemma fl_eval_19: "fl (7 / 10) = 3152519739159347 / 4503599627370496"
proof -
  have "fl (7 / 10) = of_int (6305039478318694) * 2 powi (- 1 - 52)"
    by (rule fl_eqI) (simp_all add: rne_def)
  then show ?thesis by simp
qed

lemma fl_eval_20: "fl (35) = 35"
proof -
  have "fl (35) = of_int (4925812092436480) * 2 powi (5 - 52)"
    by (rule fl_eqI) (simp_all add: rne_def)
  then show ?thesis by simp
qed

lemma fl_eval_21: "fl (7 / 20) = 3152519739159347 / 9007199254740992"
proof -
  have "fl (7 / 20) = of_int (6305039478318694) * 2 powi (- 2 - 52)"
    by (rule fl_eqI) (simp_all add: rne_def)
  then show ?thesis by simp
qed

lemma fl_eval_22: "fl (15) = 15"
proof -
  have "fl (15) = of_int (8444249301319680) * 2 powi (3 - 52)"
    by (rule fl_eqI) (simp_all add: rne_def)
  then show ?thesis by simp
qed

lemma fl_eval_23: "fl (11358149378044935347338468172759 / 40564819207303340847894502572032) = 5044031582654955 / 18014398509481984"
proof -
  have "fl (11358149378044935347338468172759 / 40564819207303340847894502572032) = of_int (5044031582654955) * 2 powi (- 2 - 52)"
    by (rule fl_eqI) (simp_all add: rne_def)
  then show ?thesis by simp
qed

lemma fl_eval_24: "fl (5044031582654955 / 18014398509481984) = 5044031582654955 / 18014398509481984"
proof -
  have "fl (5044031582654955 / 18014398509481984) = of_int (5044031582654955) * 2 powi (- 2 - 52)"
    by (rule fl_eqI) (simp_all add: rne_def)
  then show ?thesis by simp
qed

lemma fl_eval_25: "fl (3152519739159347 / 9007199254740992) = 3152519739159347 / 9007199254740992"
proof -
  have "fl (3152519739159347 / 9007199254740992) = of_int (6305039478318694) * 2 powi (- 2 - 52)"
    by (rule fl_eqI) (simp_all add: rne_def)
  then show ?thesis by simp
qed

lemma fl_eval_26: "fl (5044031582654955 / 6305039478318694) = 7205759403792793 / 9007199254740992"
proof -
  have "fl (5044031582654955 / 6305039478318694) = of_int (7205759403792793) * 2 powi (- 1 - 52)"
    by (rule fl_eqI) (simp_all add: rne_def)
  then show ?thesis by simp
qed

lemma fl_eval_27: "fl (80) = 80"
proof -
  have "fl (80) = of_int (5629499534213120) * 2 powi (6 - 52)"
    by (rule fl_eqI) (simp_all add: rne_def)
  then show ?thesis by simp
qed

lemma fl_eval_28: "fl (8 / 5) = 3602879701896397 / 2251799813685248"
proof -
  have "fl (8 / 5) = of_int (7205759403792794) * 2 powi (0 - 52)"
    by (rule fl_eqI) (simp_all add: rne_def)
  then show ?thesis by simp
qed

lemma fl_eval_29: "fl (2251799813685248125 / 281474976710656) = 8000"
proof -
  have "fl (2251799813685248125 / 281474976710656) = of_int (8796093022208000) * 2 powi (12 - 52)"
    by (rule fl_eqI) (simp_all add: rne_def)
  then show ?thesis by simp
qed

lemma fl_eval_30: "fl (900719925474099125 / 140737488355328) = 7036874417766399 / 1099511627776"
proof -
  have "fl (900719925474099125 / 140737488355328) = of_int (7036874417766399) * 2 powi (12 - 52)"
    by (rule fl_eqI) (simp_all add: rne_def)
  then show ?thesis by simp
qed

lemma fl_eval_31: "fl (180143985094819825 / 2251799813685248) = 80"
proof -
  have "fl (180143985094819825 / 2251799813685248) = of_int (5629499534213120) * 2 powi (6 - 52)"
    by (rule fl_eqI) (simp_all add: rne_def)
  then show ?thesis by simp
qed

lemma fl_eval_32: "fl (68) = 68"
proof -
  have "fl (68) = of_int (4785074604081152) * 2 powi (6 - 52)"
    by (rule fl_eqI) (simp_all add: rne_def)
  then show ?thesis by simp
qed

lemma fl_eval_33: "fl (17 / 25) = 6124895493223875 / 9007199254740992"
proof -
  have "fl (17 / 25) = of_int (6124895493223875) * 2 powi (- 1 - 52)"
    by (rule fl_eqI) (simp_all add: rne_def)
  then show ?thesis by simp
qed

lemma fl_eval_34: "fl (22067261648773020231500776878375 / 40564819207303340847894502572032) = 1224979098644775 / 2251799813685248"
proof -
  have "fl (22067261648773020231500776878375 / 40564819207303340847894502572032) = of_int (4899916394579100) * 2 powi (- 1 - 52)"
    by (rule fl_eqI) (simp_all add: rne_def)
  then show ?thesis by simp
qed

lemma fl_eval_35: "fl (1224979098644775 / 2251799813685248) = 1224979098644775 / 2251799813685248"
proof -
  have "fl (1224979098644775 / 2251799813685248) = of_int (4899916394579100) * 2 powi (- 1 - 52)"
    by (rule fl_eqI) (simp_all add: rne_def)
  then show ?thesis by simp
qed

lemma fl_eval_36: "fl (6124895493223875 / 9007199254740992) = 6124895493223875 / 9007199254740992"
proof -
  have "fl (6124895493223875 / 9007199254740992) = of_int (6124895493223875) * 2 powi (- 1 - 52)"
    by (rule fl_eqI) (simp_all add: rne_def)
  then show ?thesis by simp
qed

lemma fl_eval_37: "fl (113) = 113"
proof -
  have "fl (113) = of_int (7951668092076032) * 2 powi (6 - 52)"
    by (rule fl_eqI) (simp_all add: rne_def)
  then show ?thesis by simp
qed

lemma fl_eval_38: "fl (113 / 50) = 1272266894732165 / 562949953421312"
proof -
  have "fl (113 / 50) = of_int (5089067578928660) * 2 powi (1 - 52)"
    by (rule fl_eqI) (simp_all add: rne_def)
  then show ?thesis by simp
qed

lemma fl_eval_39: "fl (795166809207603125 / 70368744177664) = 6212240696934399 / 549755813888"
proof -
  have "fl (795166809207603125 / 70368744177664) = of_int (6212240696934399) * 2 powi (13 - 52)"
    by (rule fl_eqI) (simp_all add: rne_def)
  then show ?thesis by simp
qed

lemma fl_eval_40: "fl (22381955910279673009744603460403 / 2475880078570760549798248448) = 4969792557547519 / 549755813888"
proof -
  have "fl (22381955910279673009744603460403 / 2475880078570760549798248448) = of_int (4969792557547519) * 2 powi (13 - 52)"
    by (rule fl_eqI) (simp_all add: rne_def)
  then show ?thesis by simp
qed

lemma fl_eval_41: "fl (90071992547409925 / 1125899906842624) = 80"
proof -
  have "fl (90071992547409925 / 1125899906842624) = of_int (5629499534213120) * 2 powi (6 - 52)"
    by (rule fl_eqI) (simp_all add: rne_def)
  then show ?thesis by simp
qed

lemma fl_eval_42: "fl (9) = 9"
proof -
  have "fl (9) = of_int (5066549580791808) * 2 powi (3 - 52)"
    by (rule fl_eqI) (simp_all add: rne_def)
  then show ?thesis by simp
qed

lemma fl_eval_43: "fl (9 / 50) = 3242591731706757 / 18014398509481984"
proof -
  have "fl (9 / 50) = of_int (6485183463413514) * 2 powi (- 3 - 52)"
    by (rule fl_eqI) (simp_all add: rne_def)
  then show ?thesis by simp
qed

lemma fl_eval_44: "fl (11) = 11"
proof -
  have "fl (11) = of_int (6192449487634432) * 2 powi (3 - 52)"
    by (rule fl_eqI) (simp_all add: rne_def)
  then show ?thesis by simp
qed

lemma fl_eval_45: "fl (11 / 40) = 2476979795053773 / 9007199254740992"
proof -
  have "fl (11 / 40) = of_int (4953959590107546) * 2 powi (- 2 - 52)"
    by (rule fl_eqI) (simp_all add: rne_def)
  then show ?thesis by simp
qed

lemma fl_eval_46: "fl (3) = 3"
proof -
  have "fl (3) = of_int (6755399441055744) * 2 powi (1 - 52)"
    by (rule fl_eqI) (simp_all add: rne_def)
  then show ?thesis by simp
qed

lemma fl_eval_47: "fl (6 / 25) = 1080863910568919 / 4503599627370496"
proof -
  have "fl (6 / 25) = of_int (8646911284551352) * 2 powi (- 3 - 52)"
    by (rule fl_eqI) (simp_all add: rne_def)
  then show ?thesis by simp
qed

lemma fl_eval_48: "fl (7) = 7"
proof -
  have "fl (7) = of_int (7881299347898368) * 2 powi (2 - 52)"
    by (rule fl_eqI) (simp_all add: rne_def)
  then show ?thesis by simp
qed

lemma fl_eval_49: "fl (3242591731706757 / 18014398509481984) = 3242591731706757 / 18014398509481984"
proof -
  have "fl (3242591731706757 / 18014398509481984) = of_int (6485183463413514) * 2 powi (- 3 - 52)"
    by (rule fl_eqI) (simp_all add: rne_def)
  then show ?thesis by simp
qed

lemma fl_eval_50: "fl (3242591731706757 / 9007199254740992) = 3242591731706757 / 9007199254740992"
proof -
  have "fl (3242591731706757 / 9007199254740992) = of_int (6485183463413514) * 2 powi (- 2 - 52)"
    by (rule fl_eqI) (simp_all add: rne_def)
  then show ?thesis by simp
qed

lemma fl_eval_51: "fl (3894222643901120793455466284843 / 40564819207303340847894502572032) = 3458764513820541 / 36028797018963968"
proof -
  have "fl (3894222643901120793455466284843 / 40564819207303340847894502572032) = of_int (6917529027641082) * 2 powi (- 4 - 52)"
    by (rule fl_eqI) (simp_all add: rne_def)
  then show ?thesis by simp
qed

lemma fl_eval_52: "fl (3458764513820541 / 36028797018963968) = 3458764513820541 / 36028797018963968"
proof -
  have "fl (3458764513820541 / 36028797018963968) = of_int (6917529027641082) * 2 powi (- 4 - 52)"
    by (rule fl_eqI) (simp_all add: rne_def)
  then show ?thesis by simp
qed

lemma fl_eval_53: "fl (5404319552844595 / 9007199254740992) = 5404319552844595 / 9007199254740992"
proof -
  have "fl (5404319552844595 / 9007199254740992) = of_int (5404319552844595) * 2 powi (- 1 - 52)"
    by (rule fl_eqI) (simp_all add: rne_def)
  then show ?thesis by simp
qed

lemma fl_eval_54: "fl (19471113219505603967277331424215 / 162259276829213363391578010288128) = 1080863910568919 / 9007199254740992"
proof -
  have "fl (19471113219505603967277331424215 / 162259276829213363391578010288128) = of_int (8646911284551352) * 2 powi (- 4 - 52)"
    by (rule fl_eqI) (simp_all add: rne_def)
  then show ?thesis by simp
qed

lemma fl_eval_55: "fl (7782220156096217 / 36028797018963968) = 7782220156096217 / 36028797018963968"
proof -
  have "fl (7782220156096217 / 36028797018963968) = of_int (7782220156096217) * 2 powi (- 3 - 52)"
    by (rule fl_eqI) (simp_all add: rne_def)
  then show ?thesis by simp
qed

lemma fl_eval_56: "fl (14411518807585587 / 18014398509481984) = 3602879701896397 / 4503599627370496"
proof -
  have "fl (14411518807585587 / 18014398509481984) = of_int (7205759403792794) * 2 powi (- 1 - 52)"
    by (rule fl_eqI) (simp_all add: rne_def)
  then show ?thesis by simp
qed

lemma fl_eval_57: "fl (3602879701896397 / 4503599627370496) = 3602879701896397 / 4503599627370496"
proof -
  have "fl (3602879701896397 / 4503599627370496) = of_int (7205759403792794) * 2 powi (- 1 - 52)"
    by (rule fl_eqI) (simp_all add: rne_def)
  then show ?thesis by simp
qed

lemma fl_eval_58: "fl (598632319699709 / 2217156739628552) = 4863887597560135 / 18014398509481984"
proof -
  have "fl (598632319699709 / 2217156739628552) = of_int (4863887597560135) * 2 powi (- 2 - 52)"
    by (rule fl_eqI) (simp_all add: rne_def)
  then show ?thesis by simp
qed

lemma fl_eval_59: "fl (- 44) = - 44"
proof -
  have "fl (- 44) = of_int (- 6192449487634432) * 2 powi (5 - 52)"
    by (rule fl_eqI) (simp_all add: rne_def)
  then show ?thesis by simp
qed

lemma fl_eval_60: "fl (- (22 / 25)) = - (7926335344172073 / 9007199254740992)"
proof -
  have "fl (- (22 / 25)) = of_int (- 7926335344172073) * 2 powi (- 1 - 52)"
    by (rule fl_eqI) (simp_all add: rne_def)
  then show ?thesis by simp
qed

lemma fl_eval_61: "fl (5000) = 5000"
proof -
  have "fl (5000) = of_int (5497558138880000) * 2 powi (12 - 52)"
    by (rule fl_eqI) (simp_all add: rne_def)
  then show ?thesis by simp
qed

lemma fl_eval_62: "fl (2500) = 2500"
proof -
  have "fl (2500) = of_int (5497558138880000) * 2 powi (11 - 52)"
    by (rule fl_eqI) (simp_all add: rne_def)
  then show ?thesis by simp
qed

lemma fl_eval_63: "fl (121597189939003375 / 4503599627370496) = 7599824371187711 / 281474976710656"
proof -
  have "fl (121597189939003375 / 4503599627370496) = of_int (7599824371187711) * 2 powi (4 - 52)"
    by (rule fl_eqI) (simp_all add: rne_def)
  then show ?thesis by simp
qed

lemmas double_evals = fl_eval_1 fl_eval_2 fl_eval_3 fl_eval_4 fl_eval_5 fl_eval_6 fl_eval_7 fl_eval_8 fl_eval_9 fl_eval_10 fl_eval_11 fl_eval_12 fl_eval_13 fl_eval_14 fl_eval_15 fl_eval_16 fl_eval_17 fl_eval_18 fl_eval_19 fl_eval_20 fl_eval_21 fl_eval_22 fl_eval_23 fl_eval_24 fl_eval_25 fl_eval_26 fl_eval_27 fl_eval_28 fl_eval_29 fl_eval_30 fl_eval_31 fl_eval_32 fl_eval_33 fl_eval_34 fl_eval_35 fl_eval_36 fl_eval_37 fl_eval_38 fl_eval_39 fl_eval_40 fl_eval_41 fl_eval_42 fl_eval_43 fl_eval_44 fl_eval_45 fl_eval_46 fl_eval_47 fl_eval_48 fl_eval_49 fl_eval_50 fl_eval_51 fl_eval_52 fl_eval_53 fl_eval_54 fl_eval_55 fl_eval_56 fl_eval_57 fl_eval_58 fl_eval_59 fl_eval_60 fl_eval_61 fl_eval_62 fl_eval_63

lemma response_at_250_30:
  "calculate_system_response 250 30 =
     Inr \<lparr>heat_memberships = [(''low'', 0), (''medium'', 0), (''high'', 0), (''critical'', 1 / 2)],
          duration_memberships = [(''short'', 0), (''medium'', 3602879701896397 / 9007199254740992), (''long'', 2573485501354569 / 18014398509481984)],
          water_output = 1,
          dominant_heat = ''Critical'',
          dominant_duration = ''Medium'',
          should_trigger = True,
          spray_duration = 9500,
          system_status = ''ACTIVE'',
          status_color = ''#ff4444'',
          water_level = ''High'',
          water_pressure = 100\<rparr>"
proof -
  have hm: "get_heat_membership_double 250 = [(''low'', 0), (''medium'', 0), (''high'', 0), (''critical'', 1 / 2)]"
    by (simp add: get_heat_membership_double_eq fl_zero double_evals)
  have dm: "get_duration_membership_double 30 = [(''short'', 0), (''medium'', 3602879701896397 / 9007199254740992), (''long'', 2573485501354569 / 18014398509481984)]"
    by (simp add: get_duration_membership_double_eq fl_zero double_evals)
  have fo: "get_fuzzy_output_double [(''low'', 0), (''medium'', 0), (''high'', 0), (''critical'', 1 / 2)]
              [(''short'', 0), (''medium'', 3602879701896397 / 9007199254740992), (''long'', 2573485501354569 / 18014398509481984)] = Inr (1)"
    by (simp add: get_fuzzy_output_double_def rules_double_def getitem_def truediv_double_def
        fl_zero double_evals)
  have dh: "get_dominant_membership [(''low'', 0), (''medium'', 0), (''high'', 0), (''critical'', 1 / 2)] = Inr ''critical''"
    by (simp add: get_dominant_membership_def)
  have dd: "get_dominant_membership [(''short'', 0), (''medium'', 3602879701896397 / 9007199254740992), (''long'', 2573485501354569 / 18014398509481984)] = Inr ''medium''"
    by (simp add: get_dominant_membership_def)
  show ?thesis
    unfolding calculate_system_response_def hm dm Let_def fo dh dd
    by (simp add: capitalize_categories finite_or_inf_def truncate_def fl_zero double_evals
        del: capitalize.simps)
qed

lemma response_at_235_0:
  "calculate_system_response 235 0 =
     Inr \<lparr>heat_memberships = [(''low'', 0), (''medium'', 0), (''high'', 0), (''critical'', 3152519739159347 / 9007199254740992)],
          duration_memberships = [(''short'', 1), (''medium'', 0), (''long'', 0)],
          water_output = 7205759403792793 / 9007199254740992,
          dominant_heat = ''Critical'',
          dominant_duration = ''Short'',
          should_trigger = False,
          spray_duration = 6399,
          system_status = ''WARNING'',
          status_color = ''#ffa726'',
          water_level = ''High'',
          water_pressure = 80\<rparr>"
proof -
  have hm: "get_heat_membership_double 235 = [(''low'', 0), (''medium'', 0), (''high'', 0), (''critical'', 3152519739159347 / 9007199254740992)]"
    by (simp add: get_heat_membership_double_eq fl_zero double_evals)
  have dm: "get_duration_membership_double 0 = [(''short'', 1), (''medium'', 0), (''long'', 0)]"
    by (simp add: get_duration_membership_double_eq fl_zero double_evals)
  have fo: "get_fuzzy_output_double [(''low'', 0), (''medium'', 0), (''high'', 0), (''critical'', 3152519739159347 / 9007199254740992)]
              [(''short'', 1), (''medium'', 0), (''long'', 0)] = Inr (7205759403792793 / 9007199254740992)"
    by (simp add: get_fuzzy_output_double_def rules_double_def getitem_def truediv_double_def
        fl_zero double_evals)
  have dh: "get_dominant_membership [(''low'', 0), (''medium'', 0), (''high'', 0), (''critical'', 3152519739159347 / 9007199254740992)] = Inr ''critical''"
    by (simp add: get_dominant_membership_def)
  have dd: "get_dominant_membership [(''short'', 1), (''medium'', 0), (''long'', 0)] = Inr ''short''"
    by (simp add: get_dominant_membership_def)
  show ?thesis
    unfolding calculate_system_response_def hm dm Let_def fo dh dd
    by (simp add: capitalize_categories finite_or_inf_def truncate_def fl_zero double_evals
        del: capitalize.simps)
qed

lemma response_at_268_0:
  "calculate_system_response 268 0 =
     Inr \<lparr>heat_memberships = [(''low'', 0), (''medium'', 0), (''high'', 0), (''critical'', 6124895493223875 / 9007199254740992)],
          duration_memberships = [(''short'', 1), (''medium'', 0), (''long'', 0)],
          water_output = 3602879701896397 / 4503599627370496,
          dominant_heat = ''Critical'',
          dominant_duration = ''Short'',
          should_trigger = False,
          spray_duration = 9039,
          system_status = ''WARNING'',
          status_color = ''#ffa726'',
          water_level = ''High'',
          water_pressure = 80\<rparr>"
proof -
  have hm: "get_heat_membership_double 268 = [(''low'', 0), (''medium'', 0), (''high'', 0), (''critical'', 6124895493223875 / 9007199254740992)]"
    by (simp add: get_heat_membership_double_eq fl_zero double_evals)
  have dm: "get_duration_membership_double 0 = [(''short'', 1), (''medium'', 0), (''long'', 0)]"
    by (simp add: get_duration_membership_double_eq fl_zero double_evals)
  have fo: "get_fuzzy_output_double [(''low'', 0), (''medium'', 0), (''high'', 0), (''critical'', 6124895493223875 / 9007199254740992)]
              [(''short'', 1), (''medium'', 0), (''long'', 0)] = Inr (3602879701896397 / 4503599627370496)"
    by (simp add: get_fuzzy_output_double_def rules_double_def getitem_def truediv_double_def
        fl_zero double_evals)
  have dh: "get_dominant_membership [(''low'', 0), (''medium'', 0), (''high'', 0), (''critical'', 6124895493223875 / 9007199254740992)] = Inr ''critical''"
    by (simp add: get_dominant_membership_def)
  have dd: "get_dominant_membership [(''short'', 1), (''medium'', 0), (''long'', 0)] = Inr ''short''"
    by (simp add: get_dominant_membership_def)
  show ?thesis
    unfolding calculate_system_response_def hm dm Let_def fo dh dd
    by (simp add: capitalize_categories finite_or_inf_def truncate_def fl_zero double_evals
        del: capitalize.simps)
qed

lemma response_at_111_32:
  "calculate_system_response 111 32 =
     Inr \<lparr>heat_memberships = [(''low'', 3242591731706757 / 18014398509481984), (''medium'', 2476979795053773 / 9007199254740992), (''high'', 0), (''critical'', 0)],
          duration_memberships = [(''short'', 0), (''medium'', 1080863910568919 / 4503599627370496), (''long'', 3602879701896397 / 18014398509481984)],
          water_output = 4863887597560135 / 18014398509481984,
          dominant_heat = ''Medium'',
          dominant_duration = ''Medium'',
          should_trigger = False,
          spray_duration = 2500,
          system_status = ''STANDBY'',
          status_color = ''#4ecdc4'',
          water_level = ''Low'',
          water_pressure = 26\<rparr>"
proof -
  have hm: "get_heat_membership_double 111 = [(''low'', 3242591731706757 / 18014398509481984), (''medium'', 2476979795053773 / 9007199254740992), (''high'', 0), (''critical'', 0)]"
    by (simp add: get_heat_membership_double_eq fl_zero double_evals)
  have dm: "get_duration_membership_double 32 = [(''short'', 0), (''medium'', 1080863910568919 / 4503599627370496), (''long'', 3602879701896397 / 18014398509481984)]"
    by (simp add: get_duration_membership_double_eq fl_zero double_evals)
  have fo: "get_fuzzy_output_double [(''low'', 3242591731706757 / 18014398509481984), (''medium'', 2476979795053773 / 9007199254740992), (''high'', 0), (''critical'', 0)]
              [(''short'', 0), (''medium'', 1080863910568919 / 4503599627370496), (''long'', 3602879701896397 / 18014398509481984)] = Inr (4863887597560135 / 18014398509481984)"
    by (simp add: get_fuzzy_output_double_def rules_double_def getitem_def truediv_double_def
        fl_zero double_evals)
  have dh: "get_dominant_membership [(''low'', 3242591731706757 / 18014398509481984), (''medium'', 2476979795053773 / 9007199254740992), (''high'', 0), (''critical'', 0)] = Inr ''medium''"
    by (simp add: get_dominant_membership_def)
  have dd: "get_dominant_membership [(''short'', 0), (''medium'', 1080863910568919 / 4503599627370496), (''long'', 3602879701896397 / 18014398509481984)] = Inr ''medium''"
    by (simp add: get_dominant_membership_def)
  show ?thesis
    unfolding calculate_system_response_def hm dm Let_def fo dh dd
    by (simp add: capitalize_categories finite_or_inf_def truncate_def fl_zero double_evals
        del: capitalize.simps)
qed

section \<open>Response or overflow\<close>

lemma overflow_error_from:
  assumes "2 ^ 1020 \<le> t"
  shows "calculate_system_response t d = Inl OverflowError"
  using calculate_system_response_cases[of t d] overflow_from[OF assms] by auto

lemma response_or_overflow:
  "(\<exists>r. calculate_system_response t d = Inr r
        \<and> 0 \<le> water_output r \<and> water_output r \<le> 1
        \<and> get_fuzzy_output_double (get_heat_membership_double t) (get_duration_membership_double d)
            = Inr (water_output r)
        \<and> should_trigger r = (155 \<le> t \<and> 0 < d)
        \<and> spray_duration r =
            truncate (fl (fl (5000 * max 1 (fl (fl (t - 155) / 50))) * max 0.5 (water_output r)))
        \<and> system_status r = (if 155 \<le> t \<and> 0 < d then ''ACTIVE''
                              else if 140 \<le> t then ''WARNING'' else ''STANDBY'')
        \<and> status_color r = (if 155 \<le> t \<and> 0 < d then ''#ff4444''
                             else if 140 \<le> t then ''#ffa726'' else ''#4ecdc4'')
        \<and> water_level r = (if 0 < water_output r
                            then (if water_output r < fl 0.3 then ''Low''
                                  else if water_output r < fl 0.7 then ''Medium'' else ''High'')
                            else ''None'')
        \<and> water_pressure r = truncate (fl (water_output r * 100)))
   \<or> (calculate_system_response t d = Inl OverflowError \<and> 2 ^ 1000 < t)"
proof -
  obtain wo dh dd where c:
    "get_fuzzy_output_double (get_heat_membership_double t) (get_duration_membership_double d) = Inr wo"
    "0 \<le> wo" "wo \<le> 1"
    "calculate_system_response t d =
        (if 2 ^ 1024 \<le> fl (5000 * max 1 (fl (fl (t - 155) / 50))) then Inl OverflowError
         else Inr \<lparr>heat_memberships = get_heat_membership_double t,
                   duration_memberships = get_duration_membership_double d,
                   water_output = wo,
                   dominant_heat = capitalize dh,
                   dominant_duration = capitalize dd,
                   should_trigger = (155 \<le> t \<and> 0 < d),
                   spray_duration =
                     truncate (fl (fl (5000 * max 1 (fl (fl (t - 155) / 50))) * max 0.5 wo)),
                   system_status = (if 155 \<le> t \<and> 0 < d then ''ACTIVE''
                                    else if 140 \<le> t then ''WARNING'' else ''STANDBY''),
                   status_color = (if 155 \<le> t \<and> 0 < d then ''#ff4444''
                                   else if 140 \<le> t then ''#ffa726'' else ''#4ecdc4''),
                   water_level = (if 0 < wo
                                  then (if wo < fl 0.3 then ''Low''
                                        else if wo < fl 0.7 then ''Medium'' else ''High'')
                                  else ''None''),
                   water_pressure = truncate (fl (wo * 100))\<rparr>)"
    using calculate_system_response_cases[of t d] by blast
  show ?thesis
  proof (cases "2 ^ 1024 \<le> fl (5000 * max 1 (fl (fl (t - 155) / 50)))")
    case True
    then have "\<not> t \<le> 2 ^ 1000" using no_overflow_up_to[of t] by auto
    then show ?thesis using True c(4) by simp
  next
    case False
    then show ?thesis using c by simp
  qed
qed

section \<open>What the membership values satisfy\<close>

text \<open>
  No value is negative. Medium, high, critical and long never exceed 1; low exceeds 1
  exactly below 70 degrees and short exactly below 0 seconds. From 70 degrees on, low is
  the curve clamped to [0,1].
\<close>

lemma membership_values_bounds:
  "nonneg_values (get_heat_membership t) \<and> nonneg_values (get_duration_membership d)
   \<and> value_of (get_heat_membership t) ''medium'' \<le> 1
   \<and> value_of (get_heat_membership t) ''high'' \<le> 1
   \<and> value_of (get_heat_membership t) ''critical'' \<le> 1
   \<and> value_of (get_duration_membership d) ''medium'' \<le> 1
   \<and> value_of (get_duration_membership d) ''long'' \<le> 1
   \<and> (value_of (get_heat_membership t) ''low'' \<le> 1) = (70 \<le> t)
   \<and> (value_of (get_duration_membership d) ''short'' \<le> 1) = (0 \<le> d)"
  by (simp add: get_heat_membership_eq get_duration_membership_eq nonneg_values_def value_of_def)

lemma heat_curves:
  "map_of (get_heat_membership t) ''medium'' =
     Some (if t < 100 \<or> 180 < t then 0 else if t \<le> 140 then (t - 100) / 40 else (180 - t) / 40)
   \<and> map_of (get_heat_membership t) ''critical'' =
     Some (if t < 200 then 0 else min 1 ((t - 200) / 100))
   \<and> (70 \<le> t \<longrightarrow>
        map_of (get_heat_membership t) ''low'' = Some (min 1 (max 0 ((120 - t) / 50))))"
  by (simp add: get_heat_membership_eq)

section \<open>Claims\<close>

subsection \<open>C1: range of the membership values\<close>

text \<open>
  C1 says that every membership value lies in [0,1]. The code breaks it at the failing
  input: at temperature 0 the value of \<open>low\<close> is 12/5, and at duration -15 the value of
  \<open>short\<close> is 2. The clamp \<^verbatim>\<open>max(0, ...)\<close> of these two branches can never act under
  their guards, while \<open>critical\<close> and \<open>long\<close> clamp their open side with \<^verbatim>\<open>min(1, ...)\<close>.
\<close>

theorem low_and_short_exceed_one:
  "map_of (get_heat_membership 0) ''low'' = Some (12 / 5)
   \<and> map_of (get_duration_membership (- 15)) ''short'' = Some 2
   \<and> \<not> unit_values (get_heat_membership 0)
   \<and> \<not> unit_values (get_duration_membership (- 15))"
  by (simp add: get_heat_membership_eq get_duration_membership_eq unit_values_def)

subsection \<open>C3: defuzzification\<close>



subsection \<open>C4: the heat curves\<close>

text \<open>
  C4 says that \<open>low\<close> is 1 at every temperature up to 70. The code breaks it at the failing
  input: at temperature 0 the value of \<open>low\<close> is 12/5.
\<close>

theorem heat_low_at_zero:
  "map_of (get_heat_membership 0) ''low'' = Some (12 / 5)
   \<and> map_of (get_heat_membership 0) ''low'' \<noteq> Some 1"
  by (simp add: get_heat_membership_eq)

subsection \<open>C2: the response at 250 degrees after 30 seconds\<close>

text \<open>
  C2, as stated, fails on the dominant duration: at 30 seconds \<open>medium\<close> holds 2/5 and
  \<open>long\<close> only 1/7, so the dominant duration category is medium, not long.
\<close>

theorem response_250_30_dominant_duration_counterexample:
  "get_dominant_membership (get_duration_membership 30) \<noteq> Inr ''long''
   \<and> map_sum id dominant_duration (calculate_system_response 250 30) \<noteq> Inr ''Long''
   \<and> map_sum id dominant_duration (calculate_system_response 250 30) \<noteq> Inr ''long''"
  using response_at_250_30
  by (simp add: get_duration_membership_eq get_dominant_membership_def)

text \<open>
  C2, amended: \<^verbatim>\<open>calculate_system_response(250, 30)\<close> returns dominant heat category
  critical (field \<open>Critical\<close>) and dominant duration category medium (field \<open>Medium\<close>),
  water_output 1, should_trigger true, system_status ACTIVE, water_level High,
  water_pressure 100 and spray_duration 9500. The two duration degrees of the record are
  the doubles nearest to 2/5 and 1/7.
\<close>

theorem response_250_30:
  "calculate_system_response 250 30 =
  Inr \<lparr>heat_memberships = [(''low'', 0), (''medium'', 0), (''high'', 0), (''critical'', 1 / 2)],
       duration_memberships = [(''short'', 0), (''medium'', 3602879701896397 / 9007199254740992),
                               (''long'', 2573485501354569 / 18014398509481984)],
       water_output = 1, dominant_heat = ''Critical'',
       dominant_duration = ''Medium'', should_trigger = True,
       spray_duration = 9500, system_status = ''ACTIVE'',
       status_color = ''#ff4444'', water_level = ''High'',
       water_pressure = 100\<rparr>
   \<and> 3602879701896397 / 9007199254740992 = fl (2 / 5)
   \<and> 2573485501354569 / 18014398509481984 = fl (1 / 7)
   \<and> get_dominant_membership (get_heat_membership 250) = Inr ''critical''
   \<and> get_dominant_membership (get_duration_membership 30) = Inr ''medium''"
  using response_at_250_30
  by (simp add: get_heat_membership_eq get_duration_membership_eq get_dominant_membership_def
      double_evals)

subsection \<open>C5: the trigger decision\<close>

text \<open>
  C5, as stated, fails where the call returns no response: at \<open>2 ^ 1023\<close> degrees, a finite
  double, after 1 second the product for the spray duration overflows and
  \<^verbatim>\<open>int(spray_duration)\<close> raises OverflowError, although the claim demands a response
  that triggers.
\<close>

theorem should_trigger_overflow_counterexample:
  "(155::real) \<le> 2 ^ 1023 \<and> (0::real) < 1
   \<and> calculate_system_response (2 ^ 1023) 1 = Inl OverflowError"
  using overflow_error_from[of "2 ^ 1023" 1] by simp

text \<open>
  C5, amended: for every temperature and duration the call either returns a response whose
  should_trigger is true exactly when the temperature is at least 155 and the duration is
  above 0 (so never at duration 0), or it raises OverflowError, which happens only above
  \<open>2 ^ 1000\<close> degrees.
\<close>

theorem should_trigger_iff:
  "((\<exists>r. calculate_system_response t d = Inr r \<and> should_trigger r = (155 \<le> t \<and> 0 < d))
    \<or> (calculate_system_response t d = Inl OverflowError \<and> 2 ^ 1000 < t))
   \<and> ((\<exists>r. calculate_system_response t 0 = Inr r \<and> should_trigger r = False)
    \<or> (calculate_system_response t 0 = Inl OverflowError \<and> 2 ^ 1000 < t))"
proof -
  have a: "(\<exists>r. calculate_system_response t d = Inr r \<and> should_trigger r = (155 \<le> t \<and> 0 < d))
    \<or> (calculate_system_response t d = Inl OverflowError \<and> 2 ^ 1000 < t)"
    using response_or_overflow[of t d] by blast
  have b: "(\<exists>r. calculate_system_response t 0 = Inr r \<and> should_trigger r = False)
    \<or> (calculate_system_response t 0 = Inl OverflowError \<and> 2 ^ 1000 < t)"
    using response_or_overflow[of t 0] by auto
  show ?thesis using a b by (rule conjI)
qed

subsection \<open>C6: the status cascade\<close>

text \<open>
  C6, as stated, fails where the call returns no response: at \<open>2 ^ 1023\<close> degrees and
  duration 0 the claim demands the status WARNING, and the call raises OverflowError.
\<close>

theorem system_status_overflow_counterexample:
  "(140::real) \<le> 2 ^ 1023 \<and> calculate_system_response (2 ^ 1023) 0 = Inl OverflowError"
  using overflow_error_from[of "2 ^ 1023" 0] by simp

text \<open>
  C6, amended: for every temperature and duration the call either returns a response whose
  system_status is ACTIVE when should_trigger holds, otherwise WARNING when the
  temperature is at least 140, otherwise STANDBY, with status_color #ff4444 for ACTIVE,
  #ffa726 for WARNING and #4ecdc4 for STANDBY, or it raises OverflowError, which happens
  only above \<open>2 ^ 1000\<close> degrees.
\<close>

theorem system_status_cascade:
  "(\<exists>r. calculate_system_response t d = Inr r
        \<and> system_status r = (if should_trigger r then ''ACTIVE''
                              else if 140 \<le> t then ''WARNING'' else ''STANDBY'')
        \<and> status_color r = (if system_status r = ''ACTIVE'' then ''#ff4444''
                             else if system_status r = ''WARNING'' then ''#ffa726'' else ''#4ecdc4''))
   \<or> (calculate_system_response t d = Inl OverflowError \<and> 2 ^ 1000 < t)"
proof -
  from response_or_overflow[of t d] show ?thesis
  proof
    assume "\<exists>r. calculate_system_response t d = Inr r
        \<and> 0 \<le> water_output r \<and> water_output r \<le> 1
        \<and> get_fuzzy_output_double (get_heat_membership_double t) (get_duration_membership_double d)
            = Inr (water_output r)
        \<and> should_trigger r = (155 \<le> t \<and> 0 < d)
        \<and> spray_duration r =
            truncate (fl (fl (5000 * max 1 (fl (fl (t - 155) / 50))) * max 0.5 (water_output r)))
        \<and> system_status r = (if 155 \<le> t \<and> 0 < d then ''ACTIVE''
                              else if 140 \<le> t then ''WARNING'' else ''STANDBY'')
        \<and> status_color r = (if 155 \<le> t \<and> 0 < d then ''#ff4444''
                             else if 140 \<le> t then ''#ffa726'' else ''#4ecdc4'')
        \<and> water_level r = (if 0 < water_output r
                            then (if water_output r < fl 0.3 then ''Low''
                                  else if water_output r < fl 0.7 then ''Medium'' else ''High'')
                            else ''None'')
        \<and> water_pressure r = truncate (fl (water_output r * 100))"
    then obtain r where r: "calculate_system_response t d = Inr r"
      "should_trigger r = (155 \<le> t \<and> 0 < d)"
      "system_status r = (if 155 \<le> t \<and> 0 < d then ''ACTIVE''
                              else if 140 \<le> t then ''WARNING'' else ''STANDBY'')"
      "status_color r = (if 155 \<le> t \<and> 0 < d then ''#ff4444''
                             else if 140 \<le> t then ''#ffa726'' else ''#4ecdc4'')"
      by blast
    have "system_status r = (if should_trigger r then ''ACTIVE''
                              else if 140 \<le> t then ''WARNING'' else ''STANDBY'')"
      using r(2,3) by simp
    moreover have "status_color r = (if system_status r = ''ACTIVE'' then ''#ff4444''
                             else if system_status r = ''WARNING'' then ''#ffa726'' else ''#4ecdc4'')"
      using r(3,4) by simp
    ultimately show ?thesis using r(1) by blast
  next
    assume "calculate_system_response t d = Inl OverflowError \<and> 2 ^ 1000 < t"
    then show ?thesis by simp
  qed
qed

subsection \<open>C7: the spray duration\<close>

text \<open>
  C7, as stated, fails twice. At \<open>2 ^ 1023\<close> degrees there is no spray_duration: the call
  raises OverflowError. And the equation does not hold in exact arithmetic: at (268, 0)
  the response holds water_output 0.8 (the double) and spray_duration 9039, while the
  exact product of 5000, 113/50 and that water_output truncates to 9040.
\<close>

theorem spray_duration_counterexample:
  "calculate_system_response (2 ^ 1023) 5 = Inl OverflowError
   \<and> map_sum id water_output (calculate_system_response 268 0) = Inr (3602879701896397 / 4503599627370496)
   \<and> map_sum id spray_duration (calculate_system_response 268 0) = Inr 9039
   \<and> truncate (5000 * max 1 ((268 - 155) / 50) * max 0.5 (3602879701896397 / 4503599627370496)) = 9040"
  using overflow_error_from[of "2 ^ 1023" 5]
  by (simp add: response_at_268_0 truncate_def)

text \<open>
  C7, amended: for every temperature and duration the call either returns a response whose
  spray_duration is the truncation of 5000 * max(1, (temperature - 155)/50) *
  max(0.5, water_output) as double precision computes it, every operation rounded to the
  nearest double, and is never negative, or it raises OverflowError, which happens only
  above \<open>2 ^ 1000\<close> degrees.
\<close>

theorem spray_duration_truncated_nonneg:
  "(\<exists>r. calculate_system_response t d = Inr r
        \<and> spray_duration r =
            truncate (fl (fl (5000 * max 1 (fl (fl (t - 155) / 50))) * max 0.5 (water_output r)))
        \<and> 0 \<le> spray_duration r)
   \<or> (calculate_system_response t d = Inl OverflowError \<and> 2 ^ 1000 < t)"
proof -
  from response_or_overflow[of t d] show ?thesis
  proof
    assume "calculate_system_response t d = Inl OverflowError \<and> 2 ^ 1000 < t"
    then show ?thesis by simp
  next
    assume "\<exists>r. calculate_system_response t d = Inr r
        \<and> 0 \<le> water_output r \<and> water_output r \<le> 1
        \<and> get_fuzzy_output_double (get_heat_membership_double t) (get_duration_membership_double d)
            = Inr (water_output r)
        \<and> should_trigger r = (155 \<le> t \<and> 0 < d)
        \<and> spray_duration r =
            truncate (fl (fl (5000 * max 1 (fl (fl (t - 155) / 50))) * max 0.5 (water_output r)))
        \<and> system_status r = (if 155 \<le> t \<and> 0 < d then ''ACTIVE''
                              else if 140 \<le> t then ''WARNING'' else ''STANDBY'')
        \<and> status_color r = (if 155 \<le> t \<and> 0 < d then ''#ff4444''
                             else if 140 \<le> t then ''#ffa726'' else ''#4ecdc4'')
        \<and> water_level r = (if 0 < water_output r
                            then (if water_output r < fl 0.3 then ''Low''
                                  else if water_output r < fl 0.7 then ''Medium'' else ''High'')
                            else ''None'')
        \<and> water_pressure r = truncate (fl (water_output r * 100))"
    then obtain r where r: "calculate_system_response t d = Inr r"
      "0 \<le> water_output r" "water_output r \<le> 1"
      "spray_duration r =
            truncate (fl (fl (5000 * max 1 (fl (fl (t - 155) / 50))) * max 0.5 (water_output r)))"
      by blast
    have h: "1 \<le> max 1 (fl (fl (t - 155) / 50))" by simp
    have "0 \<le> fl (fl (5000 * max 1 (fl (fl (t - 155) / 50))) * max 0.5 (water_output r))"
      using spray_product(2)[OF h r(2,3)] .
    then have "0 \<le> spray_duration r" unfolding r(4) by (rule truncate_nonneg)
    then show ?thesis using r(1,4) by blast
  qed
qed

subsection \<open>C8: water level and water pressure\<close>

text \<open>
  C8, as stated, fails twice. At \<open>2 ^ 1023\<close> degrees the call raises OverflowError. And the
  equation for water_pressure does not hold in exact arithmetic: at (235, 0) the response
  holds water_output 0.7999999999999999 (the double below 0.8) and water_pressure 80,
  while the exact product of that water_output and 100 truncates to 79.
\<close>

theorem water_pressure_counterexample:
  "calculate_system_response (2 ^ 1023) 10 = Inl OverflowError
   \<and> map_sum id water_output (calculate_system_response 235 0) = Inr (7205759403792793 / 9007199254740992)
   \<and> map_sum id water_pressure (calculate_system_response 235 0) = Inr 80
   \<and> truncate (7205759403792793 / 9007199254740992 * 100) = 79"
  using overflow_error_from[of "2 ^ 1023" 10]
  by (simp add: response_at_235_0 truncate_def)

text \<open>
  C8, amended: for every temperature and duration the call either returns a response whose
  water_level is None exactly when water_output is 0, Low exactly when it lies strictly
  between 0 and 0.3, Medium exactly when it is at least 0.3 and below 0.7, High exactly
  when it is at least 0.7, where 0.3 and 0.7 are the doubles these literals denote, and
  whose water_pressure is the truncation of water_output * 100 rounded to the nearest
  double and lies in [0,100], or it raises OverflowError, which happens only above
  \<open>2 ^ 1000\<close> degrees.
\<close>

theorem water_level_and_pressure:
  "(\<exists>r. calculate_system_response t d = Inr r
        \<and> (water_level r = ''None'') = (water_output r = 0)
        \<and> (water_level r = ''Low'') = (0 < water_output r \<and> water_output r < fl 0.3)
        \<and> (water_level r = ''Medium'') = (fl 0.3 \<le> water_output r \<and> water_output r < fl 0.7)
        \<and> (water_level r = ''High'') = (fl 0.7 \<le> water_output r)
        \<and> water_pressure r = truncate (fl (water_output r * 100))
        \<and> 0 \<le> water_pressure r \<and> water_pressure r \<le> 100)
   \<or> (calculate_system_response t d = Inl OverflowError \<and> 2 ^ 1000 < t)"
proof -
  from response_or_overflow[of t d] show ?thesis
  proof
    assume "calculate_system_response t d = Inl OverflowError \<and> 2 ^ 1000 < t"
    then show ?thesis by simp
  next
    assume "\<exists>r. calculate_system_response t d = Inr r
        \<and> 0 \<le> water_output r \<and> water_output r \<le> 1
        \<and> get_fuzzy_output_double (get_heat_membership_double t) (get_duration_membership_double d)
            = Inr (water_output r)
        \<and> should_trigger r = (155 \<le> t \<and> 0 < d)
        \<and> spray_duration r =
            truncate (fl (fl (5000 * max 1 (fl (fl (t - 155) / 50))) * max 0.5 (water_output r)))
        \<and> system_status r = (if 155 \<le> t \<and> 0 < d then ''ACTIVE''
                              else if 140 \<le> t then ''WARNING'' else ''STANDBY'')
        \<and> status_color r = (if 155 \<le> t \<and> 0 < d then ''#ff4444''
                             else if 140 \<le> t then ''#ffa726'' else ''#4ecdc4'')
        \<and> water_level r = (if 0 < water_output r
                            then (if water_output r < fl 0.3 then ''Low''
                                  else if water_output r < fl 0.7 then ''Medium'' else ''High'')
                            else ''None'')
        \<and> water_pressure r = truncate (fl (water_output r * 100))"
    then obtain r where r: "calculate_system_response t d = Inr r"
      "0 \<le> water_output r" "water_output r \<le> 1"
      "water_level r = (if 0 < water_output r
                            then (if water_output r < fl 0.3 then ''Low''
                                  else if water_output r < fl 0.7 then ''Medium'' else ''High'')
                            else ''None'')"
      "water_pressure r = truncate (fl (water_output r * 100))"
      by blast
    have lit: "0 < fl 0.3" "fl 0.3 < fl 0.7" by (simp_all add: double_evals)
    have a: "(water_level r = ''None'') = (water_output r = 0)" using r(2,4) by auto
    have b: "(water_level r = ''Low'') = (0 < water_output r \<and> water_output r < fl 0.3)"
      using r(2,4) by auto
    have c: "(water_level r = ''Medium'') = (fl 0.3 \<le> water_output r \<and> water_output r < fl 0.7)"
      using r(2,4) lit by auto
    have e: "(water_level r = ''High'') = (fl 0.7 \<le> water_output r)"
      using r(2,4) lit by auto
    note pr = pressure_product[OF r(2,3)]
    have f: "0 \<le> water_pressure r" unfolding r(5) using pr(2) by (rule truncate_nonneg)
    have g: "water_pressure r \<le> 100" unfolding r(5) using pr(2,3) by (intro truncate_le) simp_all
    show ?thesis using r(1,5) a b c e f g by blast
  qed
qed

subsection \<open>C9: the dominant category\<close>

text \<open>
  C9: on every membership dict (at least one key, no empty key, no negative value)
  \<^verbatim>\<open>get_dominant_membership\<close> raises nothing and returns the key with the greatest
  value; among equal maxima the first in iteration order wins; when every value is 0 it
  returns the first key.
\<close>

theorem get_dominant_membership_first_maximum:
  assumes "m \<noteq> []" and "\<forall>p\<in>set m. fst p \<noteq> [] \<and> 0 \<le> snd p"
  shows "\<exists>k. get_dominant_membership m = Inr k \<and> first_maximum m k
           \<and> ((\<forall>p\<in>set m. snd p = 0) \<longrightarrow> k = fst (hd m))"
proof -
  obtain k where k: "get_dominant_membership m = Inr k" "first_maximum m k"
    using get_dominant_first_maximum[OF assms] by blast
  have "k = fst (hd m)" if z: "\<forall>p\<in>set m. snd p = 0"
  proof -
    obtain pre v post where pp: "m = pre @ (k, v) # post" "\<forall>p\<in>set pre. snd p < v"
      using k(2) unfolding first_maximum_def by blast
    have "v = 0" using z pp(1) by auto
    then have "pre = []" using z pp by (cases pre) auto
    then show ?thesis using pp(1) by simp
  qed
  then show ?thesis using k by blast
qed

text \<open>At 164 degrees medium and high tie at 2/5, and medium, declared first, wins.\<close>

theorem get_dominant_membership_first_maximum_witness:
  "get_heat_membership 164 \<noteq> []
   \<and> list_all (\<lambda>p. fst p \<noteq> [] \<and> 0 \<le> snd p) (get_heat_membership 164)
   \<and> get_heat_membership 164 = [(''low'', 0), (''medium'', 2 / 5), (''high'', 2 / 5), (''critical'', 0)]
   \<and> get_dominant_membership (get_heat_membership 164) = Inr ''medium''
   \<and> first_maximum (get_heat_membership 164) ''medium''"
proof -
  have m: "get_heat_membership 164 = [(''low'', 0), (''medium'', 2 / 5), (''high'', 2 / 5), (''critical'', 0)]"
    by (simp add: get_heat_membership_eq)
  have ne: "get_heat_membership 164 \<noteq> []" unfolding m by simp
  have nn: "\<forall>p\<in>set (get_heat_membership 164). fst p \<noteq> [] \<and> 0 \<le> snd p" unfolding m by simp
  have r: "get_dominant_membership (get_heat_membership 164) = Inr ''medium''"
    unfolding m by (simp add: get_dominant_membership_def)
  have la: "list_all (\<lambda>p. fst p \<noteq> [] \<and> 0 \<le> snd p) (get_heat_membership 164)"
    unfolding m by simp
  have fm: "first_maximum (get_heat_membership 164) ''medium''"
    using get_dominant_membership_first_maximum [OF ne nn] r by auto
  show ?thesis using ne la m r fm by blast
qed

subsection \<open>C10: the fallback of the defuzzifier is not reached\<close>


end
